theory Spec2Isabelle
  imports Main "HOL-Library.Multiset" "HOL-Library.Word"
begin

section \<open>Data model\<close>

text \<open>
  The documents of the chat backend, as the Mongoose schemas declare them
  (\<^verbatim>\<open>models/Chat.ts\<close>, \<^verbatim>\<open>models/Message.ts\<close>, \<^verbatim>\<open>models/ChatUser.ts\<close>).
  ObjectIds are compared by their string form everywhere in the handlers
  (\<^verbatim>\<open>a.toString() === b.toString()\<close>), so an id is modelled by a natural number and the
  comparison by equality. A \<^verbatim>\<open>Date\<close> is its millisecond count.
\<close>

type_synonym tenantId = string
type_synonym userId = nat
type_synonym chatId = nat
type_synonym messageId = nat
type_synonym socketId = nat
type_synonym time = nat

record deletedForEntry =
  df_userId :: userId
  deletedAt :: time

text \<open>
  \<^verbatim>\<open>deletedFor\<close> has the schema default \<^verbatim>\<open>[]\<close>, but the queries and the handlers
  both provide for a document that lacks the field (\<^verbatim>\<open>$exists: false\<close>,
  \<^verbatim>\<open>if (!message.deletedFor)\<close>): the field is optional in the model.
\<close>

record message =
  mid :: messageId
  chatId :: chatId
  senderId :: userId
  body :: string
  msgType :: string
  replyTo :: "messageId option"
  viewers :: "userId list"
  deletedFor :: "deletedForEntry list option"
  createdAt :: time
  tenantId :: tenantId

record chat =
  cid :: chatId
  participants :: "userId list"
  lastMessage :: "messageId option"
  chatTenantId :: tenantId

record chatUser =
  uid :: userId
  socketIds :: "socketId list"
  active :: bool

text \<open>
  One tenant's store: the three collections bound to the tenant's connection.
  \<open>writes\<close> counts the write operations issued against the store (create, save,
  update, delete); it is bookkeeping of the model, used to state how often a handler
  persists.
\<close>

record db =
  messages :: "message list"
  chats :: "chat list"
  chatUsers :: "chatUser list"
  writes :: nat

text \<open>
  The process state the socket handlers work on: the tenant stores, and the connected
  sockets with the rooms each has joined (\<^verbatim>\<open>io.sockets.sockets\<close>, \<^verbatim>\<open>socket.rooms\<close>).
\<close>

record world =
  dbs :: "tenantId \<Rightarrow> db"
  sockets :: "(socketId \<times> chatId list) list"

text \<open>
  Modelled from the spec: \<^verbatim>\<open>config/db\<close> (\<^verbatim>\<open>getTenantModels\<close>, \<^verbatim>\<open>connectToTenantDB\<close>) is
  not among the sources. Section 4.1 of the specification has \<^verbatim>\<open>resolve(tenantId)\<close> open
  a dedicated connection scoped to a tenant-named store and bind the repositories to it,
  so the models resolved for a tenant read and write that tenant's store and no other.
  The connection is taken to be there: the socket middleware has ensured it before any
  handler runs.
\<close>

definition getTenantModels :: "tenantId \<Rightarrow> world \<Rightarrow> db" where
  "getTenantModels t w = dbs w t"

definition putTenantModels :: "tenantId \<Rightarrow> db \<Rightarrow> world \<Rightarrow> world" where
  "putTenantModels t d w = w\<lparr>dbs := (dbs w)(t := d)\<rparr>"

section \<open>Repository queries\<close>

definition findMessageById :: "db \<Rightarrow> messageId \<Rightarrow> message option" where
  "findMessageById d i = find (\<lambda>m. mid m = i) (messages d)"

definition findChatById :: "db \<Rightarrow> chatId \<Rightarrow> chat option" where
  "findChatById d c = find (\<lambda>ch. cid ch = c) (chats d)"

definition findUserById :: "db \<Rightarrow> userId \<Rightarrow> chatUser option" where
  "findUserById d u = find (\<lambda>x. uid x = u) (chatUsers d)"

text \<open>
  \<^verbatim>\<open>populate("participants")\<close>: each participant id is replaced by its ChatUser
  document; an id without a document is dropped from the populated array.
\<close>

definition populateParticipants :: "db \<Rightarrow> chat \<Rightarrow> chatUser list" where
  "populateParticipants d ch = List.map_filter (findUserById d) (participants ch)"

text \<open>
  The visibility filter that the unread count and both deletion modes share:
  \<^verbatim>\<open>$or: [{deletedFor: {$exists: false}}, {deletedFor: {$size: 0}},
  {deletedFor: {$not: {$elemMatch: {userId: u}}}}]\<close>.
\<close>

definition elemMatchUser :: "userId \<Rightarrow> message \<Rightarrow> bool" where
  "elemMatchUser u m =
     (case deletedFor m of None \<Rightarrow> False | Some es \<Rightarrow> list_ex (\<lambda>e. df_userId e = u) es)"

definition notDeletedFor :: "userId \<Rightarrow> message \<Rightarrow> bool" where
  "notDeletedFor u m =
     (deletedFor m = None \<or> deletedFor m = Some [] \<or> \<not> elemMatchUser u m)"

text \<open>
  \<^verbatim>\<open>getUnreadCount\<close>: \<^verbatim>\<open>Message.countDocuments({chatId, senderId: {$ne: userId},
  viewers: {$ne: userId}, tenantId, $or: [...]})\<close>. On an array field \<^verbatim>\<open>$ne\<close> holds
  when no element equals the value.
\<close>

definition unreadQuery :: "chatId \<Rightarrow> userId \<Rightarrow> tenantId \<Rightarrow> message \<Rightarrow> bool" where
  "unreadQuery c u t m =
     (chatId m = c \<and> senderId m \<noteq> u \<and> u \<notin> set (viewers m) \<and> tenantId m = t
      \<and> notDeletedFor u m)"

definition getUnreadCount :: "chatId \<Rightarrow> userId \<Rightarrow> tenantId \<Rightarrow> world \<Rightarrow> nat" where
  "getUnreadCount c u t w = length (filter (unreadQuery c u t) (messages (getTenantModels t w)))"

text \<open>
  \<^verbatim>\<open>.sort({createdAt: -1})\<close>. Documents with equal \<^verbatim>\<open>createdAt\<close> come in an order
  the store does not specify; the model fixes one (the reverse of a stable ascending
  sort), and no theorem below depends on which.
\<close>

definition sortCreatedAtDesc :: "message list \<Rightarrow> message list" where
  "sortCreatedAtDesc ms = rev (sort_key createdAt ms)"

text \<open>
  \<^verbatim>\<open>.limit(n)\<close>: a limit of 0 is no limit, and a negative limit is taken by its
  absolute value.
\<close>

definition mongoLimit :: "int \<Rightarrow> 'a list \<Rightarrow> 'a list" where
  "mongoLimit n xs = (if n = 0 then xs else take (nat \<bar>n\<bar>) xs)"

text \<open>\<^verbatim>\<open>findOne(q).sort({createdAt: -1})\<close>: the first document of the sorted matches.\<close>

definition findLatest :: "(message \<Rightarrow> bool) \<Rightarrow> message list \<Rightarrow> message option" where
  "findLatest q ms = (case sortCreatedAtDesc (filter q ms) of [] \<Rightarrow> None | m # _ \<Rightarrow> Some m)"

text \<open>
  \<^verbatim>\<open>document.save()\<close> writes the document back under its \<^verbatim>\<open>_id\<close>, which is unique in a
  collection.
\<close>

definition saveMessage :: "db \<Rightarrow> message \<Rightarrow> db" where
  "saveMessage d m =
     d\<lparr>messages := map (\<lambda>x. if mid x = mid m then m else x) (messages d),
       writes := Suc (writes d)\<rparr>"

definition createMessage :: "db \<Rightarrow> message \<Rightarrow> db" where
  "createMessage d m = d\<lparr>messages := messages d @ [m], writes := Suc (writes d)\<rparr>"

definition findByIdAndDelete :: "db \<Rightarrow> messageId \<Rightarrow> db" where
  "findByIdAndDelete d i =
     d\<lparr>messages := filter (\<lambda>m. mid m \<noteq> i) (messages d), writes := Suc (writes d)\<rparr>"

definition findByIdAndUpdateLastMessage :: "db \<Rightarrow> chatId \<Rightarrow> messageId \<Rightarrow> db" where
  "findByIdAndUpdateLastMessage d c i =
     d\<lparr>chats := map (\<lambda>ch. if cid ch = c then ch\<lparr>lastMessage := Some i\<rparr> else ch) (chats d),
       writes := Suc (writes d)\<rparr>"

section \<open>Events and collaborators\<close>

text \<open>
  The identity resolver (\<^verbatim>\<open>services/iamService.ts\<close>) is an external service: what it
  answers is a parameter of every handler. \<^verbatim>\<open>getUserDetailsByToken\<close> answers \<^verbatim>\<open>null\<close>
  and \<^verbatim>\<open>getUsersDetailsByToken\<close> answers \<^verbatim>\<open>[]\<close> when the token is missing or the call
  fails.
\<close>

record iamUser =
  iam_id :: userId
  firstname :: string
  lastname :: string
  profile_image :: string

record identity =
  getUserDetailsByToken :: "userId \<Rightarrow> iamUser option"
  getUsersDetailsByToken :: "userId list \<Rightarrow> iamUser list"

record readerInfo =
  reader_id :: userId
  displayName :: string
  reader_image :: string

definition readerOf :: "iamUser \<Rightarrow> readerInfo" where
  "readerOf ud =
     \<lparr>reader_id = iam_id ud, displayName = firstname ud @ '' '' @ lastname ud,
      reader_image = profile_image ud\<rparr>"

text \<open>\<^verbatim>\<open>.select("body createdAt")\<close>: the projection a deletion event carries.\<close>

record lastMessageView =
  lm_id :: messageId
  lm_body :: string
  lm_createdAt :: time

definition selectBodyCreatedAt :: "message \<Rightarrow> lastMessageView" where
  "selectBodyCreatedAt m = \<lparr>lm_id = mid m, lm_body = body m, lm_createdAt = createdAt m\<rparr>"

datatype deleteMode = ForMe | ForEveryone

datatype serverEvent =
    MessageHistory "(message \<times> iamUser option) list" bool nat int
  | MessageSent message chatId
  | MessageRead messageId chatId userId time readerInfo
  | UnreadCountUpdate chatId nat
  | MessageDeleted chatId messageId "lastMessageView option" deleteMode

text \<open>
  What a handler's \<^verbatim>\<open>console.error\<close> reports: the two rejections of
  \<^verbatim>\<open>deleteMessage\<close>, and an exception caught at the handler boundary.
\<close>

datatype handlerError = MessageNotFound | NotAuthorized | TypeError

record result =
  after :: world
  emitted :: "(socketId \<times> serverEvent) list"
  logged :: "handlerError option"

record socket =
  socket_id :: socketId
  data_tenantId :: tenantId

text \<open>\<^verbatim>\<open>io.to(socketId).emit(event)\<close> for every socket id of a ChatUser document.\<close>

definition emitToUser :: "chatUser \<Rightarrow> serverEvent \<Rightarrow> (socketId \<times> serverEvent) list" where
  "emitToUser usr ev = map (\<lambda>sid. (sid, ev)) (socketIds usr)"

definition emitUnreadCountUpdate ::
  "chatId \<Rightarrow> userId \<Rightarrow> tenantId \<Rightarrow> world \<Rightarrow> (socketId \<times> serverEvent) list" where
  "emitUnreadCountUpdate c u t w =
     (let count = getUnreadCount c u t w in
      case findUserById (getTenantModels t w) u of
        None \<Rightarrow> []
      | Some usr \<Rightarrow> emitToUser usr (UnreadCountUpdate c count))"

section \<open>Socket handlers\<close>

text \<open>
  The handlers of \<^verbatim>\<open>socket/socketManager.ts\<close>. Each takes the identity resolver, the
  socket the event arrived on and the event's fields, and returns the new process state,
  the events it emits (in program order) and what it logs. The repository calls are
  modelled on the documents as stored: they return. A handler whose repository call is
  rejected stops in its \<^verbatim>\<open>catch\<close>, logs, and emits nothing further. The field
  encryption that the repositories apply on the way is modelled on its own, in the
  section on field encryption.
\<close>

definition silent :: "world \<Rightarrow> result" where
  "silent w = \<lparr>after = w, emitted = [], logged = None\<rparr>"

definition rejected :: "world \<Rightarrow> handlerError \<Rightarrow> result" where
  "rejected w e = \<lparr>after = w, emitted = [], logged = Some e\<rparr>"

subsection \<open>updateUnreadCount\<close>

definition updateUnreadCount :: "socket \<Rightarrow> chatId \<Rightarrow> userId \<Rightarrow> world \<Rightarrow> result" where
  "updateUnreadCount sock c u w =
     \<lparr>after = w, emitted = emitUnreadCountUpdate c u (data_tenantId sock) w, logged = None\<rparr>"

subsection \<open>getMessageHistory\<close>

text \<open>
  \<^verbatim>\<open>skip\<close> is computed and appears in \<^verbatim>\<open>hasMore\<close> only: the query has \<^verbatim>\<open>.limit(limit)\<close>
  and no \<^verbatim>\<open>.skip\<close>. \<^verbatim>\<open>populate("senderId")\<close> leaves \<^verbatim>\<open>null\<close> for a sender without a
  ChatUser document; otherwise the sender is replaced by the identity resolver's answer.
\<close>

definition populateSender :: "identity \<Rightarrow> db \<Rightarrow> message \<Rightarrow> message \<times> iamUser option" where
  "populateSender idn d m =
     (m, case findUserById d (senderId m) of
           None \<Rightarrow> None
         | Some _ \<Rightarrow> getUserDetailsByToken idn (senderId m))"

definition getMessageHistory :: "identity \<Rightarrow> socket \<Rightarrow> chatId \<Rightarrow> int \<Rightarrow> world \<Rightarrow> result" where
  "getMessageHistory idn sock c page w =
     (let limit = 10 * page;
          skip = (page - 1) * limit;
          t = data_tenantId sock;
          d = getTenantModels t w;
          totalMessages = length (filter (\<lambda>m. chatId m = c) (messages d));
          msgs = mongoLimit limit
                   (sortCreatedAtDesc (filter (\<lambda>m. chatId m = c \<and> tenantId m = t) (messages d)));
          populatedMessages = map (populateSender idn d) msgs
      in \<lparr>after = w,
          emitted = [(socket_id sock,
                      MessageHistory (rev populatedMessages) (int totalMessages > skip + limit)
                        totalMessages page)],
          logged = None\<rparr>)"

subsection \<open>markMessageAsRead\<close>

text \<open>\<^verbatim>\<open>new Set(xs)\<close> keeps the first occurrence of every element, in order.\<close>

definition jsSet :: "'a list \<Rightarrow> 'a list" where
  "jsSet xs = rev (remdups (rev xs))"

text \<open>
  The \<^verbatim>\<open>messageRead\<close> fan-out comes first in the handler and is under no condition
  but that the chat and the reader's details resolve. Its callbacks are asynchronous and
  not awaited; the model lists their events before those of the code that follows.
  The check against the viewer set guards only what comes after it.
\<close>

definition readFanout ::
  "identity \<Rightarrow> db \<Rightarrow> time \<Rightarrow> chatId \<Rightarrow> messageId \<Rightarrow> userId \<Rightarrow> (socketId \<times> serverEvent) list"
  where
  "readFanout idn d now c i u =
     (case findChatById d c of
        None \<Rightarrow> []
      | Some ch \<Rightarrow>
          (case getUserDetailsByToken idn u of
             None \<Rightarrow> []
           | Some userDetails \<Rightarrow>
               concat (map (\<lambda>participant.
                 case findUserById d (uid participant) of
                   None \<Rightarrow> []
                 | Some participantUser \<Rightarrow>
                     emitToUser participantUser
                       (MessageRead i c u now (readerOf userDetails)))
                 (populateParticipants d ch))))"

text \<open>
  The loop after \<^verbatim>\<open>message.save()\<close>: the chat and its populated participants are the
  ones loaded before the save (\<open>d\<close>); the counts and the participants' sockets are read
  from the store after it (\<open>w'\<close>).
\<close>

definition countFanout ::
  "db \<Rightarrow> tenantId \<Rightarrow> world \<Rightarrow> chatId \<Rightarrow> (socketId \<times> serverEvent) list" where
  "countFanout d t w' c =
     (case findChatById d c of
        None \<Rightarrow> []
      | Some ch \<Rightarrow>
          concat (map (\<lambda>participant.
            let unreadCount = getUnreadCount c (uid participant) t w' in
            case findUserById (getTenantModels t w') (uid participant) of
              None \<Rightarrow> []
            | Some participantUser \<Rightarrow>
                emitToUser participantUser (UnreadCountUpdate c unreadCount))
            (populateParticipants d ch)))"

definition markMessageAsRead ::
  "identity \<Rightarrow> socket \<Rightarrow> time \<Rightarrow> chatId \<Rightarrow> messageId \<Rightarrow> userId \<Rightarrow> world \<Rightarrow> result" where
  "markMessageAsRead idn sock now c i u w =
     (let t = data_tenantId sock; d = getTenantModels t w in
      case findMessageById d i of
        None \<Rightarrow> silent w
      | Some message \<Rightarrow>
          let uniqueViewers = jsSet (viewers message);
              readEvents = readFanout idn d now c i u
          in if u \<notin> set uniqueViewers then
               let d' = saveMessage d (message\<lparr>viewers := uniqueViewers @ [u]\<rparr>);
                   w' = putTenantModels t d' w
               in \<lparr>after = w', emitted = readEvents @ countFanout d t w' c, logged = None\<rparr>
             else \<lparr>after = w, emitted = readEvents, logged = None\<rparr>)"

subsection \<open>markAllMessagesAsRead\<close>

text \<open>
  \<^verbatim>\<open>Message.updateMany({chatId, senderId: {$ne: userId}, viewers: {$ne: userId}},
  {$addToSet: {viewers: userId}})\<close>, one write operation; then the unread count of every
  participant but the reader is pushed.
\<close>

definition updateManyAddViewer :: "db \<Rightarrow> chatId \<Rightarrow> userId \<Rightarrow> db" where
  "updateManyAddViewer d c u =
     d\<lparr>messages :=
         map (\<lambda>m. if chatId m = c \<and> senderId m \<noteq> u \<and> u \<notin> set (viewers m)
                  then m\<lparr>viewers := viewers m @ [u]\<rparr> else m) (messages d),
       writes := Suc (writes d)\<rparr>"

definition markAllMessagesAsRead :: "socket \<Rightarrow> chatId \<Rightarrow> userId \<Rightarrow> world \<Rightarrow> result" where
  "markAllMessagesAsRead sock c u w =
     (let t = data_tenantId sock;
          d' = updateManyAddViewer (getTenantModels t w) c u;
          w' = putTenantModels t d' w
      in case findChatById d' c of
           None \<Rightarrow> silent w'
         | Some ch \<Rightarrow>
             \<lparr>after = w',
              emitted =
                concat (map (\<lambda>participant.
                  if uid participant \<noteq> u then
                    (let unreadCount = getUnreadCount c (uid participant) t w' in
                     case findUserById d' (uid participant) of
                       None \<Rightarrow> []
                     | Some participantUser \<Rightarrow>
                         emitToUser participantUser (UnreadCountUpdate c unreadCount))
                  else [])
                  (populateParticipants d' ch)),
              logged = None\<rparr>)"

subsection \<open>deleteMessage\<close>

text \<open>
  The per-participant visibility record of a message: \<^verbatim>\<open>deletedFor.find(...)\<close> gives the
  first entry of the participant, whose \<^verbatim>\<open>deletedAt\<close> is reset; without one, an entry
  is pushed.
\<close>

fun resetFirst :: "userId \<Rightarrow> time \<Rightarrow> deletedForEntry list \<Rightarrow> deletedForEntry list" where
  "resetFirst u now [] = []"
| "resetFirst u now (e # es) =
     (if df_userId e = u then e\<lparr>deletedAt := now\<rparr> # es else e # resetFirst u now es)"

definition upsertDeletedFor ::
  "userId \<Rightarrow> time \<Rightarrow> deletedForEntry list option \<Rightarrow> deletedForEntry list" where
  "upsertDeletedFor u now df =
     (let entries = (case df of None \<Rightarrow> [] | Some es \<Rightarrow> es) in
      case find (\<lambda>e. df_userId e = u) entries of
        Some existingDelete \<Rightarrow> resetFirst u now entries
      | None \<Rightarrow> entries @ [\<lparr>df_userId = u, deletedAt = now\<rparr>])"

definition lastVisibleExcept :: "db \<Rightarrow> chatId \<Rightarrow> messageId \<Rightarrow> userId \<Rightarrow> lastMessageView option" where
  "lastVisibleExcept d c i u =
     map_option selectBodyCreatedAt
       (findLatest (\<lambda>m. chatId m = c \<and> mid m \<noteq> i \<and> notDeletedFor u m) (messages d))"

definition lastVisible :: "db \<Rightarrow> chatId \<Rightarrow> userId \<Rightarrow> lastMessageView option" where
  "lastVisible d c u =
     map_option selectBodyCreatedAt
       (findLatest (\<lambda>m. chatId m = c \<and> notDeletedFor u m) (messages d))"

definition deleteForEveryone :: "tenantId \<Rightarrow> messageId \<Rightarrow> chatId \<Rightarrow> world \<Rightarrow> result" where
  "deleteForEveryone t i c w =
     (let d' = findByIdAndDelete (getTenantModels t w) i;
          w' = putTenantModels t d' w
      in case findChatById d' c of
           None \<Rightarrow> silent w'
         | Some ch \<Rightarrow>
             \<lparr>after = w',
              emitted =
                concat (map (\<lambda>participant.
                  case findUserById d' (uid participant) of
                    None \<Rightarrow> []
                  | Some participantUser \<Rightarrow>
                      emitToUser participantUser
                        (MessageDeleted c i (lastVisibleExcept d' c i (uid participant))
                           ForEveryone))
                  (populateParticipants d' ch)),
              logged = None\<rparr>)"

definition deleteForMe ::
  "tenantId \<Rightarrow> time \<Rightarrow> message \<Rightarrow> chatId \<Rightarrow> userId \<Rightarrow> world \<Rightarrow> result" where
  "deleteForMe t now message c u w =
     (let d1 = saveMessage (getTenantModels t w)
                 (message\<lparr>deletedFor := Some (upsertDeletedFor u now (deletedFor message))\<rparr>);
          lastVisibleMessage = lastVisible d1 c u;
          d2 = (case lastVisibleMessage of
                  Some lv \<Rightarrow>
                    if senderId message = u then findByIdAndUpdateLastMessage d1 c (lm_id lv)
                    else d1
                | None \<Rightarrow> d1);
          w' = putTenantModels t d2 w
      in \<lparr>after = w',
          emitted =
            (case findUserById d2 u of
               None \<Rightarrow> []
             | Some user \<Rightarrow>
                 emitToUser user (MessageDeleted c (mid message) lastVisibleMessage ForMe)),
          logged = None\<rparr>)"

definition deleteMessage ::
  "socket \<Rightarrow> time \<Rightarrow> messageId \<Rightarrow> chatId \<Rightarrow> userId \<Rightarrow> deleteMode \<Rightarrow> world \<Rightarrow> result" where
  "deleteMessage sock now i c u mode w =
     (let t = data_tenantId sock in
      case find (\<lambda>m. mid m = i \<and> chatId m = c \<and> tenantId m = t)
             (messages (getTenantModels t w)) of
        None \<Rightarrow> rejected w MessageNotFound
      | Some message \<Rightarrow>
          if mode = ForEveryone \<and> senderId message \<noteq> u then rejected w NotAuthorized
          else if mode = ForEveryone then deleteForEveryone t i c w
          else deleteForMe t now message c u w)"

subsection \<open>directMessage\<close>

record content =
  c_body :: string
  c_type :: string
  c_replyTo :: "messageId option"

text \<open>
  The handler loads the chat with \<^verbatim>\<open>.lean()\<close> and then overwrites
  \<^verbatim>\<open>chat.participants\<close> with the identity resolver's user objects. Two facts of the
  runtime decide what follows:
  \<^item> a lean query result is a plain object, not a Mongoose document: it has no
    \<^verbatim>\<open>save\<close> method, and \<^verbatim>\<open>chat.save()\<close> raises a \<^verbatim>\<open>TypeError\<close>;
  \<^item> the objects \<^verbatim>\<open>getUsersDetailsByToken\<close> builds have no \<^verbatim>\<open>socketIds\<close> property:
    \<^verbatim>\<open>p.socketIds\<close> is \<^verbatim>\<open>undefined\<close> on them, and \<^verbatim>\<open>participant.socketIds.includes\<close>
    raises a \<^verbatim>\<open>TypeError\<close> as soon as it is evaluated.
\<close>

definition leanSave :: "chat \<Rightarrow> handlerError + unit" where
  "leanSave ch = Inl TypeError"

definition iamSocketIds :: "iamUser \<Rightarrow> socketId list option" where
  "iamSocketIds p = None"

definition emitToParticipants :: "iamUser list \<Rightarrow> serverEvent \<Rightarrow> (socketId \<times> serverEvent) list" where
  "emitToParticipants ps ev =
     concat (map (\<lambda>p. case iamSocketIds p of
                          None \<Rightarrow> []
                        | Some sids \<Rightarrow> if sids \<noteq> [] then map (\<lambda>sid. (sid, ev)) sids else [])
                 ps)"

text \<open>
  \<^verbatim>\<open>Array.from(io.sockets.sockets.values()).filter(s => participant.socketIds.includes(s.id))\<close>:
  the callback runs once per connected socket.
\<close>

definition participantSockets ::
  "world \<Rightarrow> iamUser \<Rightarrow> handlerError + (socketId \<times> chatId list) list" where
  "participantSockets w participant =
     (case iamSocketIds participant of
        None \<Rightarrow> if sockets w = [] then Inr [] else Inl TypeError
      | Some sids \<Rightarrow> Inr (filter (\<lambda>s. fst s \<in> set sids) (sockets w)))"

text \<open>
  The loop over the other participants (lines 426 to 477): it threads the viewers of
  the in-memory message and the events emitted so far. The unread count is read from
  the store inside the loop, before the \<^verbatim>\<open>message.save()\<close> that follows the loop.
\<close>

fun autoReadLoop ::
  "identity \<Rightarrow> tenantId \<Rightarrow> time \<Rightarrow> chatId \<Rightarrow> messageId \<Rightarrow> iamUser list \<Rightarrow> world \<Rightarrow>
   iamUser list \<Rightarrow> userId list \<times> (socketId \<times> serverEvent) list \<Rightarrow>
   handlerError option \<times> userId list \<times> (socketId \<times> serverEvent) list" where
  "autoReadLoop idn t now c i chatParticipants w [] (vs, out) = (None, vs, out)"
| "autoReadLoop idn t now c i chatParticipants w (participant # rest) (vs, out) =
     (case participantSockets w participant of
        Inl e \<Rightarrow> (Some e, vs, out)
      | Inr socks \<Rightarrow>
          let isParticipantInChat = list_ex (\<lambda>s. c \<in> set (snd s)) socks;
              u = iam_id participant
          in if isParticipantInChat then
               (let vs' = (if u \<in> set vs then vs else vs @ [u]) in
                case getUserDetailsByToken idn u of
                  None \<Rightarrow> autoReadLoop idn t now c i chatParticipants w rest (vs', out)
                | Some userDetails \<Rightarrow>
                    autoReadLoop idn t now c i chatParticipants w rest
                      (vs', out
                         @ emitToParticipants chatParticipants
                             (MessageRead i c u now (readerOf userDetails))
                         @ emitUnreadCountUpdate c u t w))
             else autoReadLoop idn t now c i chatParticipants w rest
                    (vs, out @ emitUnreadCountUpdate c u t w))"

text \<open>
  What follows \<^verbatim>\<open>chat.save()\<close> in the handler (lines 395 to 480). An exception in the
  loop is caught at the handler boundary: what was emitted stays emitted, and the
  \<^verbatim>\<open>message.save()\<close> after the loop is not reached.
\<close>

definition deliver ::
  "identity \<Rightarrow> tenantId \<Rightarrow> time \<Rightarrow> chatId \<Rightarrow> message \<Rightarrow> userId \<Rightarrow> iamUser list \<Rightarrow> world \<Rightarrow>
   result" where
  "deliver idn t now c message sender chatParticipants w =
     (case findMessageById (getTenantModels t w) (mid message) of
        None \<Rightarrow> silent w
      | Some populatedMessage \<Rightarrow>
          let otherParticipants = filter (\<lambda>p. iam_id p \<noteq> sender) chatParticipants;
              sent = emitToParticipants chatParticipants (MessageSent populatedMessage c)
          in case autoReadLoop idn t now c (mid message) chatParticipants w otherParticipants
                    (viewers message, sent) of
               (Some e, vs, out) \<Rightarrow> \<lparr>after = w, emitted = out, logged = Some e\<rparr>
             | (None, vs, out) \<Rightarrow>
                 \<lparr>after = putTenantModels t
                            (saveMessage (getTenantModels t w) (message\<lparr>viewers := vs\<rparr>)) w,
                  emitted = out, logged = None\<rparr>)"

definition joinRoom :: "socketId \<Rightarrow> chatId \<Rightarrow> world \<Rightarrow> world" where
  "joinRoom sid c w =
     w\<lparr>sockets := map (\<lambda>s. if fst s = sid \<and> c \<notin> set (snd s)
                             then (fst s, snd s @ [c]) else s) (sockets w)\<rparr>"

definition directMessage ::
  "identity \<Rightarrow> socket \<Rightarrow> time \<Rightarrow> messageId \<Rightarrow> chatId \<Rightarrow> content \<Rightarrow> world \<Rightarrow> result" where
  "directMessage idn sock now newId c cont w =
     (let t = data_tenantId sock;
          d = getTenantModels t w;
          user = find (\<lambda>x. socket_id sock \<in> set (socketIds x)) (chatUsers d);
          chat = findChatById d c
      in case (user, chat) of
           (Some usr, Some ch) \<Rightarrow>
             let chatParticipants =
                   getUsersDetailsByToken idn (map uid (populateParticipants d ch));
                 w1 = joinRoom (socket_id sock) c w;
                 message = \<lparr>mid = newId, chatId = c, senderId = uid usr, body = c_body cont,
                            msgType = c_type cont, replyTo = c_replyTo cont, viewers = [],
                            deletedFor = Some [], createdAt = now, tenantId = t\<rparr>;
                 w2 = putTenantModels t (createMessage d message) w1
             in (case leanSave (ch\<lparr>lastMessage := Some newId\<rparr>) of
                   Inl e \<Rightarrow> rejected w2 e
                 | Inr _ \<Rightarrow> deliver idn t now c message (uid usr) chatParticipants w2)
         | _ \<Rightarrow> silent w)"

subsection \<open>Dispatch\<close>

datatype clientEvent =
    GetMessageHistory chatId int
  | DirectMessage chatId content
  | MarkMessageAsRead chatId messageId userId
  | MarkAllMessagesAsRead chatId userId
  | UpdateUnreadCount chatId userId
  | DeleteMessage messageId chatId userId deleteMode

text \<open>
  What the server supplies to a handler run: the clock (\<^verbatim>\<open>new Date()\<close>) and the
  \<^verbatim>\<open>_id\<close> given to a created document.
\<close>

record env =
  now :: time
  newId :: messageId

fun handle :: "identity \<Rightarrow> env \<Rightarrow> socket \<Rightarrow> clientEvent \<Rightarrow> world \<Rightarrow> result" where
  "handle idn e sock (GetMessageHistory c page) w = getMessageHistory idn sock c page w"
| "handle idn e sock (DirectMessage c cont) w = directMessage idn sock (now e) (newId e) c cont w"
| "handle idn e sock (MarkMessageAsRead c i u) w = markMessageAsRead idn sock (now e) c i u w"
| "handle idn e sock (MarkAllMessagesAsRead c u) w = markAllMessagesAsRead sock c u w"
| "handle idn e sock (UpdateUnreadCount c u) w = updateUnreadCount sock c u w"
| "handle idn e sock (DeleteMessage i c u mode) w = deleteMessage sock (now e) i c u mode w"


section \<open>Field encryption\<close>

text \<open>
  \<^verbatim>\<open>services/encryptDecryptAlgorithm.ts\<close> and the read hooks of the schemas in
  \<^verbatim>\<open>models/Chat.ts\<close>. A JavaScript string is a sequence of 16-bit code units and a
  \<^verbatim>\<open>Buffer\<close> a sequence of bytes.
\<close>

type_synonym byte = "8 word"
type_synonym bytes = "8 word list"
type_synonym jsString = "16 word list"

subsection \<open>The runtime's conversions between strings and buffers\<close>

text \<open>
  \<^verbatim>\<open>Buffer.from(s, "utf-8")\<close>: a surrogate pair is one code point of four bytes; a
  surrogate that is not part of a pair is encoded as U+FFFD (\<^verbatim>\<open>EF BF BD\<close>).
\<close>

definition isHighSurrogate :: "nat \<Rightarrow> bool" where
  "isHighSurrogate u = (0xD800 \<le> u \<and> u \<le> 0xDBFF)"

definition isLowSurrogate :: "nat \<Rightarrow> bool" where
  "isLowSurrogate u = (0xDC00 \<le> u \<and> u \<le> 0xDFFF)"

definition encodeCodePoint :: "nat \<Rightarrow> nat list" where
  "encodeCodePoint cp =
     (if cp < 0x80 then [cp]
      else if cp < 0x800 then [0xC0 + cp div 64, 0x80 + cp mod 64]
      else if cp < 0x10000 then [0xE0 + cp div 4096, 0x80 + cp div 64 mod 64, 0x80 + cp mod 64]
      else [0xF0 + cp div 262144, 0x80 + cp div 4096 mod 64, 0x80 + cp div 64 mod 64,
            0x80 + cp mod 64])"

definition replacementBytes :: "nat list" where
  "replacementBytes = [0xEF, 0xBF, 0xBD]"

fun utf8EncodeUnits :: "nat list \<Rightarrow> nat list" where
  "utf8EncodeUnits [] = []"
| "utf8EncodeUnits [u] =
     (if isHighSurrogate u \<or> isLowSurrogate u then replacementBytes else encodeCodePoint u)"
| "utf8EncodeUnits (u # l # rest) =
     (if isHighSurrogate u then
        (if isLowSurrogate l
         then encodeCodePoint (0x10000 + (u - 0xD800) * 1024 + (l - 0xDC00)) @ utf8EncodeUnits rest
         else replacementBytes @ utf8EncodeUnits (l # rest))
      else if isLowSurrogate u then replacementBytes @ utf8EncodeUnits (l # rest)
      else encodeCodePoint u @ utf8EncodeUnits (l # rest))"

text \<open>
  \<^verbatim>\<open>buf.toString("utf-8")\<close>: the decoder of the Encoding Standard. A byte that cannot
  start or continue a sequence gives U+FFFD and decoding resumes after the longest valid
  prefix. \<open>decodeStep\<close> is one step: the code units produced and the number of bytes
  consumed.
\<close>

definition isContinuation :: "nat \<Rightarrow> bool" where
  "isContinuation b = (0x80 \<le> b \<and> b \<le> 0xBF)"

definition secondByteOk :: "nat \<Rightarrow> nat \<Rightarrow> bool" where
  "secondByteOk b0 b1 =
     ((if b0 = 0xE0 then 0xA0 else if b0 = 0xF0 then 0x90 else 0x80) \<le> b1
      \<and> b1 \<le> (if b0 = 0xED then 0x9F else if b0 = 0xF4 then 0x8F else 0xBF))"

definition unitsOfCodePoint :: "nat \<Rightarrow> nat list" where
  "unitsOfCodePoint cp =
     (if cp < 0x10000 then [cp]
      else [0xD800 + (cp - 0x10000) div 1024, 0xDC00 + (cp - 0x10000) mod 1024])"

fun decodeStep :: "nat list \<Rightarrow> nat list \<times> nat" where
  "decodeStep [] = ([], 0)"
| "decodeStep (b0 # bs) =
     (if b0 < 0x80 then ([b0], 1)
      else if 0xC2 \<le> b0 \<and> b0 \<le> 0xDF then
        (case bs of
           b1 # _ \<Rightarrow> if isContinuation b1 then ([(b0 - 0xC0) * 64 + (b1 - 0x80)], 2)
                     else ([0xFFFD], 1)
         | [] \<Rightarrow> ([0xFFFD], 1))
      else if 0xE0 \<le> b0 \<and> b0 \<le> 0xEF then
        (case bs of
           b1 # b2 # _ \<Rightarrow>
             if secondByteOk b0 b1 then
               (if isContinuation b2
                then ([(b0 - 0xE0) * 4096 + (b1 - 0x80) * 64 + (b2 - 0x80)], 3)
                else ([0xFFFD], 2))
             else ([0xFFFD], 1)
         | [b1] \<Rightarrow> if secondByteOk b0 b1 then ([0xFFFD], 2) else ([0xFFFD], 1)
         | [] \<Rightarrow> ([0xFFFD], 1))
      else if 0xF0 \<le> b0 \<and> b0 \<le> 0xF4 then
        (case bs of
           b1 # b2 # b3 # _ \<Rightarrow>
             if secondByteOk b0 b1 then
               (if isContinuation b2 then
                  (if isContinuation b3
                   then (unitsOfCodePoint
                           ((b0 - 0xF0) * 262144 + (b1 - 0x80) * 4096 + (b2 - 0x80) * 64
                            + (b3 - 0x80)), 4)
                   else ([0xFFFD], 3))
                else ([0xFFFD], 2))
             else ([0xFFFD], 1)
         | [b1, b2] \<Rightarrow>
             if secondByteOk b0 b1 then
               (if isContinuation b2 then ([0xFFFD], 3) else ([0xFFFD], 2))
             else ([0xFFFD], 1)
         | [b1] \<Rightarrow> if secondByteOk b0 b1 then ([0xFFFD], 2) else ([0xFFFD], 1)
         | [] \<Rightarrow> ([0xFFFD], 1))
      else ([0xFFFD], 1))"

function utf8DecodeBytes :: "nat list \<Rightarrow> nat list" where
  "utf8DecodeBytes bs =
     (if bs = [] then []
      else fst (decodeStep bs) @ utf8DecodeBytes (drop (snd (decodeStep bs)) bs))"
  by pat_completeness auto

termination
  apply (relation "measure length")
   apply simp
  subgoal for bs by (cases bs) (auto split: list.splits)
  done

declare utf8DecodeBytes.simps [simp del]

definition utf8Encode :: "jsString \<Rightarrow> bytes" where
  "utf8Encode s = map of_nat (utf8EncodeUnits (map unat s))"

definition utf8Decode :: "bytes \<Rightarrow> jsString" where
  "utf8Decode bs = map of_nat (utf8DecodeBytes (map unat bs))"

text \<open>
  \<^verbatim>\<open>buf.toString("hex")\<close> writes two lowercase digits per byte;
  \<^verbatim>\<open>Buffer.from(s, "hex")\<close> reads pairs of digits of either case and stops at the
  first pair that is not hexadecimal.
\<close>

definition hexDigit :: "nat \<Rightarrow> 16 word" where
  "hexDigit n = (if n < 10 then of_nat (48 + n) else of_nat (87 + n))"

definition hexValue :: "16 word \<Rightarrow> nat option" where
  "hexValue c =
     (let n = unat c in
      if 48 \<le> n \<and> n \<le> 57 then Some (n - 48)
      else if 97 \<le> n \<and> n \<le> 102 then Some (n - 87)
      else if 65 \<le> n \<and> n \<le> 70 then Some (n - 55)
      else None)"

fun hexEncode :: "bytes \<Rightarrow> jsString" where
  "hexEncode [] = []"
| "hexEncode (b # bs) = hexDigit (unat b div 16) # hexDigit (unat b mod 16) # hexEncode bs"

fun hexDecode :: "jsString \<Rightarrow> bytes" where
  "hexDecode (a # b # rest) =
     (case (hexValue a, hexValue b) of
        (Some h, Some l) \<Rightarrow> of_nat (16 * h + l) # hexDecode rest
      | _ \<Rightarrow> [])"
| "hexDecode _ = []"

subsection \<open>The libraries\<close>

text \<open>
  Argon2id (\<^verbatim>\<open>argon2\<close>) and XChaCha20-Poly1305 (\<^verbatim>\<open>sodium-native\<close>) are native
  libraries: they are parameters of the model. A call that the library refuses (a salt
  it finds too short, a nonce or key of the wrong length) raises; a ciphertext that does
  not verify makes decryption fail.
\<close>

datatype cryptoError = LibraryError | RangeError | DecryptionFailed

record cryptoLib =
  argon2id :: "jsString \<Rightarrow> bytes \<Rightarrow> cryptoError + bytes"
  aeadEncrypt :: "bytes \<Rightarrow> bytes \<Rightarrow> bytes \<Rightarrow> cryptoError + bytes"
  aeadDecrypt :: "bytes \<Rightarrow> bytes \<Rightarrow> bytes \<Rightarrow> bytes option"

definition ABYTES :: nat where
  "ABYTES = 16"

text \<open>
  The cache service (\<^verbatim>\<open>services/cacheService.ts\<close>), by what it is used for: derived keys
  under \<^verbatim>\<open>password:salt\<close> and decrypted fields under the document's cache key. A derived
  key is stored as its base64 text, which the model identifies with the key. A cached
  value that is empty is falsy, and is treated by the callers as a miss. Expiry is not
  modelled: an entry stays until it is overwritten.
\<close>

record cacheState =
  keyCache :: "jsString \<rightharpoonup> bytes"
  fieldCache :: "jsString \<rightharpoonup> jsString"

definition colon :: "16 word" where
  "colon = 58"

definition deriveKey ::
  "cryptoLib \<Rightarrow> jsString \<Rightarrow> jsString \<Rightarrow> cacheState \<Rightarrow> cryptoError + bytes \<times> cacheState" where
  "deriveKey lib password salt ch =
     (let cacheKey = password @ [colon] @ salt;
          derive = (case argon2id lib password (hexDecode salt) of
                      Inl e \<Rightarrow> Inl e
                    | Inr key \<Rightarrow> Inr (key, ch\<lparr>keyCache := (keyCache ch)(cacheKey \<mapsto> key)\<rparr>))
      in case keyCache ch cacheKey of
           Some cached \<Rightarrow> if cached \<noteq> [] then Inr (cached, ch) else derive
         | None \<Rightarrow> derive)"

definition encryptDataWithNonce ::
  "cryptoLib \<Rightarrow> jsString \<Rightarrow> jsString \<Rightarrow> jsString \<Rightarrow> jsString \<Rightarrow> cacheState \<Rightarrow>
   cryptoError + jsString \<times> cacheState" where
  "encryptDataWithNonce lib plaintext salt nonce encryptionPassword ch =
     (case deriveKey lib encryptionPassword salt ch of
        Inl e \<Rightarrow> Inl e
      | Inr (key, ch') \<Rightarrow>
          (case aeadEncrypt lib (utf8Encode plaintext) (hexDecode nonce) key of
             Inl e \<Rightarrow> Inl e
           | Inr ciphertext \<Rightarrow> Inr (hexEncode ciphertext, ch')))"

text \<open>
  \<^verbatim>\<open>decryptDataWithNonce\<close>: a cached value under the cache key is returned without
  decrypting. \<^verbatim>\<open>Buffer.alloc(ciphertext.length - ABYTES)\<close> raises a \<^verbatim>\<open>RangeError\<close> for
  a ciphertext shorter than the tag. The cache key is optional, and an empty one is
  falsy: \<open>usableKey\<close> is the key under \<^verbatim>\<open>if (cacheKey)\<close>.
\<close>

definition usableKey :: "jsString option \<Rightarrow> jsString option" where
  "usableKey cacheKey = (case cacheKey of Some k \<Rightarrow> if k \<noteq> [] then Some k else None | None \<Rightarrow> None)"

definition decryptDataWithNonce ::
  "cryptoLib \<Rightarrow> jsString \<Rightarrow> jsString \<Rightarrow> jsString \<Rightarrow> jsString \<Rightarrow> jsString option \<Rightarrow>
   cacheState \<Rightarrow> cryptoError + jsString \<times> cacheState" where
  "decryptDataWithNonce lib ciphertextHex nonceHex salt encryptionPassword cacheKey ch =
     (let cachedData = (case usableKey cacheKey of None \<Rightarrow> None | Some k \<Rightarrow> fieldCache ch k) in
      case (case cachedData of Some t \<Rightarrow> if t \<noteq> [] then Some t else None | None \<Rightarrow> None) of
        Some t \<Rightarrow> Inr (t, ch)
      | None \<Rightarrow>
          (case deriveKey lib encryptionPassword salt ch of
             Inl e \<Rightarrow> Inl e
           | Inr (key, ch') \<Rightarrow>
               let ciphertext = hexDecode ciphertextHex;
                   nonce = hexDecode nonceHex
               in if length ciphertext < ABYTES then Inl RangeError
                  else (case aeadDecrypt lib ciphertext nonce key of
                          None \<Rightarrow> Inl DecryptionFailed
                        | Some msg \<Rightarrow>
                            let newCacheData = utf8Decode msg in
                            Inr (newCacheData,
                                 case usableKey cacheKey of
                                   None \<Rightarrow> ch'
                                 | Some k \<Rightarrow>
                                     ch'\<lparr>fieldCache := (fieldCache ch')(k \<mapsto> newCacheData)\<rparr>))))"

subsection \<open>The read hooks\<close>

text \<open>
  The post hooks of \<^verbatim>\<open>find\<close>, \<^verbatim>\<open>findOne\<close> and \<^verbatim>\<open>findOneAndUpdate\<close> of the chat and
  the message schema are the same code but for the field they decrypt (\<^verbatim>\<open>name\<close>,
  \<^verbatim>\<open>body\<close>); both build the cache key with the module name \<^verbatim>\<open>chats\<close>. \<open>doc\<close> holds
  what the hooks read of a document: its id and tenant id, the field, and \<^verbatim>\<open>updatedAt\<close>
  in ISO form when present.
\<close>

definition js :: "string \<Rightarrow> jsString" where
  "js s = map (\<lambda>c. of_nat (of_char c)) s"

record secrets =
  sec_salt :: jsString
  sec_nonce :: jsString
  sec_password :: jsString

record doc =
  doc_id :: jsString
  doc_tenantId :: jsString
  doc_text :: jsString
  doc_updatedAt :: "jsString option"

definition generateCacheKey ::
  "jsString \<Rightarrow> jsString \<Rightarrow> jsString \<Rightarrow> jsString \<Rightarrow> jsString option \<Rightarrow> jsString" where
  "generateCacheKey fieldName tenant docId moduleName updatedAt =
     tenant @ [colon] @ moduleName @ [colon] @ docId @ [colon] @ fieldName @ [colon]
     @ (case updatedAt of None \<Rightarrow> [] | Some stamp \<Rightarrow> stamp)"

definition decryptFields ::
  "cryptoLib \<Rightarrow> jsString \<Rightarrow> secrets \<Rightarrow> doc \<Rightarrow> cacheState \<Rightarrow> cryptoError + doc \<times> cacheState" where
  "decryptFields lib fieldName sec d ch =
     (if doc_text d \<noteq> [] then
        (let cacheKey = generateCacheKey fieldName (doc_tenantId d) (doc_id d) (js ''chats'')
                          (doc_updatedAt d)
         in case decryptDataWithNonce lib (doc_text d) (sec_nonce sec) (sec_salt sec)
                   (sec_password sec) (Some cacheKey) ch of
              Inl e \<Rightarrow> Inl e
            | Inr (t, ch') \<Rightarrow> Inr (d\<lparr>doc_text := t\<rparr>, ch'))
      else Inr (d, ch))"

text \<open>
  The loop of the hook: \<^verbatim>\<open>for (const doc of documents) await decryptFields(doc, ...)\<close>
  inside one \<^verbatim>\<open>try\<close>. The first exception leaves the loop for the \<^verbatim>\<open>catch\<close>, which passes
  the error to \<^verbatim>\<open>next\<close>: the query is rejected with it.
\<close>

fun decryptEach ::
  "cryptoLib \<Rightarrow> jsString \<Rightarrow> secrets \<Rightarrow> doc list \<Rightarrow> cacheState \<Rightarrow>
   cryptoError + doc list \<times> cacheState" where
  "decryptEach lib fieldName sec [] ch = Inr ([], ch)"
| "decryptEach lib fieldName sec (d # ds) ch =
     (case decryptFields lib fieldName sec d ch of
        Inl e \<Rightarrow> Inl e
      | Inr (d', ch') \<Rightarrow>
          (case decryptEach lib fieldName sec ds ch' of
             Inl e \<Rightarrow> Inl e
           | Inr (ds', ch'') \<Rightarrow> Inr (d' # ds', ch'')))"

datatype queryResult = NoResult | One doc | Many "doc list"

definition postFindHook ::
  "cryptoLib \<Rightarrow> jsString \<Rightarrow> jsString option \<Rightarrow> (jsString \<Rightarrow> secrets option) \<Rightarrow> queryResult \<Rightarrow>
   cacheState \<Rightarrow> cryptoError + queryResult \<times> cacheState" where
  "postFindHook lib fieldName ctxTenant getEncryptionSecretsByTenantId res ch =
     (case res of
        NoResult \<Rightarrow> Inr (res, ch)
      | _ \<Rightarrow>
        (case ctxTenant of
           None \<Rightarrow> Inr (res, ch)
         | Some tenant \<Rightarrow>
             (case getEncryptionSecretsByTenantId tenant of
                None \<Rightarrow> Inr (res, ch)
              | Some sec \<Rightarrow>
                  (case res of
                     Many documents \<Rightarrow>
                       (case decryptEach lib fieldName sec documents ch of
                          Inl e \<Rightarrow> Inl e
                        | Inr (ds, ch') \<Rightarrow> Inr (Many ds, ch'))
                   | One d \<Rightarrow>
                       (case decryptFields lib fieldName sec d ch of
                          Inl e \<Rightarrow> Inl e
                        | Inr (d', ch') \<Rightarrow> Inr (One d', ch'))
                   | NoResult \<Rightarrow> Inr (res, ch)))))"

section \<open>Notions of the specification\<close>

text \<open>
  The store invariant of tenant ownership: every message and chat kept in tenant
  \<open>t\<close>'s store carries the tag \<open>t\<close>. Every creating path of the handlers writes the
  socket's tenant id into the document and into the store resolved for that id.
\<close>

definition tagged :: "tenantId \<Rightarrow> db \<Rightarrow> bool" where
  "tagged t d =
     (list_all (\<lambda>m. tenantId m = t) (messages d) \<and> list_all (\<lambda>ch. chatTenantId ch = t) (chats d))"

text \<open>
  The unread count in the words of section 4.4: the messages of chat \<open>c\<close> that \<open>u\<close> did
  not send, has not viewed, and that are not hidden for \<open>u\<close>. A message is hidden for a
  participant when it carries a soft-delete record of that participant.
\<close>

definition hiddenFor :: "userId \<Rightarrow> message \<Rightarrow> bool" where
  "hiddenFor u m =
     (\<exists>e \<in> set (case deletedFor m of None \<Rightarrow> [] | Some es \<Rightarrow> es). df_userId e = u)"

definition unreadSpec :: "message list \<Rightarrow> chatId \<Rightarrow> userId \<Rightarrow> nat" where
  "unreadSpec ms c u =
     length (filter (\<lambda>m. chatId m = c \<and> senderId m \<noteq> u \<and> u \<notin> set (viewers m)
                          \<and> \<not> hiddenFor u m) ms)"

definition chatMessages :: "db \<Rightarrow> chatId \<Rightarrow> message list" where
  "chatMessages d c = filter (\<lambda>m. chatId m = c) (messages d)"

text \<open>The messages a \<^verbatim>\<open>messageHistory\<close> reply carries.\<close>

definition historyMessages :: "result \<Rightarrow> message list" where
  "historyMessages r =
     (case emitted r of [(_, MessageHistory h _ _ _)] \<Rightarrow> map fst h | _ \<Rightarrow> [])"



fun isUnreadCountUpdate :: "serverEvent \<Rightarrow> bool" where
  "isUnreadCountUpdate (UnreadCountUpdate _ _) = True"
| "isUnreadCountUpdate _ = False"

fun isMessageRead :: "serverEvent \<Rightarrow> bool" where
  "isMessageRead (MessageRead _ _ _ _ _) = True"
| "isMessageRead _ = False"

text \<open>
  A list of emitted events carries the read receipt of reader \<open>u\<close> for message \<open>i\<close> to
  every live handle of every participant of chat \<open>c\<close>, and to no other socket: its
  \<^verbatim>\<open>messageRead\<close> events are exactly those with the message, the chat, the reader, the
  time and the reader's name and image as the identity resolver gives them, addressed to
  a socket id of a participant's ChatUser document. Without the chat or without the
  reader's details there is none.
\<close>

definition readReceiptToAll ::
  "identity \<Rightarrow> db \<Rightarrow> time \<Rightarrow> chatId \<Rightarrow> messageId \<Rightarrow> userId \<Rightarrow>
   (socketId \<times> serverEvent) list \<Rightarrow> bool" where
  "readReceiptToAll idn d nw c i u out =
     (\<forall>sid ev. ((sid, ev) \<in> set out \<and> isMessageRead ev) =
        (\<exists>ch ud. findChatById d c = Some ch \<and> getUserDetailsByToken idn u = Some ud
           \<and> (\<exists>p \<in> set (participants ch).
                  \<exists>pu. findUserById d p = Some pu \<and> sid \<in> set (socketIds pu))
           \<and> ev = MessageRead i c u nw
                    \<lparr>reader_id = iam_id ud,
                     displayName = firstname ud @ '' '' @ lastname ud,
                     reader_image = profile_image ud\<rparr>))"

text \<open>
  A list of emitted events pushes the unread counts of chat \<open>c\<close> to the participants
  selected by \<open>recipient\<close>, and to no other socket: its \<^verbatim>\<open>unreadCountUpdate\<close> events
  are exactly those addressed to a socket id of the ChatUser document of a selected
  participant of the chat and carrying that participant's own count \<open>cnt p\<close> for the
  chat.
\<close>

definition countsPushed ::
  "(userId \<Rightarrow> nat) \<Rightarrow> (userId \<Rightarrow> bool) \<Rightarrow> db \<Rightarrow> chatId \<Rightarrow>
   (socketId \<times> serverEvent) list \<Rightarrow> bool" where
  "countsPushed cnt recipient d c out =
     (\<forall>sid ev. ((sid, ev) \<in> set out \<and> isUnreadCountUpdate ev) =
        (\<exists>ch. findChatById d c = Some ch
           \<and> (\<exists>p \<in> set (participants ch). recipient p
                  \<and> (\<exists>pu. findUserById d p = Some pu \<and> sid \<in> set (socketIds pu))
                  \<and> ev = UnreadCountUpdate c (cnt p))))"

text \<open>
  The most recent message of a chat that is visible to a participant: what a deletion
  event is to carry as that participant's last message.
\<close>

definition mostRecentVisible :: "message list \<Rightarrow> chatId \<Rightarrow> userId \<Rightarrow> message \<Rightarrow> bool" where
  "mostRecentVisible ms c u m =
     (m \<in> set ms \<and> chatId m = c \<and> \<not> hiddenFor u m
      \<and> (\<forall>m' \<in> set ms. chatId m' = c \<and> \<not> hiddenFor u m' \<longrightarrow> createdAt m' \<le> createdAt m))"

text \<open>
  What a deletion event carries for a participant is that participant's last visible
  message: the id, the body and the creation time of a most recent visible message of
  the chat, or nothing when the chat has no message visible to them.
\<close>

definition carriesLastVisible ::
  "message list \<Rightarrow> chatId \<Rightarrow> userId \<Rightarrow> lastMessageView option \<Rightarrow> bool" where
  "carriesLastVisible ms c u lv =
     (case lv of
        None \<Rightarrow> \<not> (\<exists>m \<in> set ms. chatId m = c \<and> \<not> hiddenFor u m)
      | Some v \<Rightarrow>
          (\<exists>m. mostRecentVisible ms c u m
               \<and> lm_id v = mid m \<and> lm_body v = body m \<and> lm_createdAt v = createdAt m))"


section \<open>A small deployment\<close>

text \<open>
  Tenant \<open>t1\<close> with one chat between two participants, each with live sockets in the
  chat's room, and two messages; the second message is the chat's last message and
  was sent by participant 1. It serves the concrete evaluations below.
\<close>

definition emptyDb :: db where
  "emptyDb = \<lparr>messages = [], chats = [], chatUsers = [], writes = 0\<rparr>"

definition msg1 :: message where
  "msg1 = \<lparr>mid = 1, chatId = 1, senderId = 2, body = ''hello'', msgType = ''text'',
           replyTo = None, viewers = [1], deletedFor = Some [], createdAt = 100,
           tenantId = ''t1''\<rparr>"

definition msg2 :: message where
  "msg2 = \<lparr>mid = 2, chatId = 1, senderId = 1, body = ''welcome'', msgType = ''text'',
           replyTo = None, viewers = [], deletedFor = Some [], createdAt = 200,
           tenantId = ''t1''\<rparr>"

definition db1 :: db where
  "db1 = \<lparr>messages = [msg1, msg2],
          chats = [\<lparr>cid = 1, participants = [1, 2], lastMessage = Some 2,
                    chatTenantId = ''t1''\<rparr>],
          chatUsers = [\<lparr>uid = 1, socketIds = [10], active = True\<rparr>,
                       \<lparr>uid = 2, socketIds = [20, 21], active = True\<rparr>],
          writes = 0\<rparr>"

definition world1 :: world where
  "world1 = \<lparr>dbs = (\<lambda>t. if t = ''t1'' then db1 else emptyDb),
             sockets = [(10, [1]), (20, [1]), (21, [])]\<rparr>"

definition iam1 :: identity where
  "iam1 = \<lparr>getUserDetailsByToken =
             (\<lambda>u. Some \<lparr>iam_id = u, firstname = ''Ada'', lastname = ''Ko'', profile_image = ''''\<rparr>),
           getUsersDetailsByToken =
             map (\<lambda>u. \<lparr>iam_id = u, firstname = ''Ada'', lastname = ''Ko'', profile_image = ''''\<rparr>)\<rparr>"

definition sock1 :: socket where
  "sock1 = \<lparr>socket_id = 10, data_tenantId = ''t1''\<rparr>"

definition sock2 :: socket where
  "sock2 = \<lparr>socket_id = 20, data_tenantId = ''t1''\<rparr>"

definition env1 :: env where
  "env1 = \<lparr>now = 300, newId = 3\<rparr>"

definition content1 :: content where
  "content1 = \<lparr>c_body = ''see you'', c_type = ''text'', c_replyTo = None\<rparr>"


section \<open>Notions of the specification: field encryption\<close>

text \<open>
  A string is well formed when every surrogate in it is part of a pair: it is the
  UTF-16 form of a sequence of Unicode scalar values.
\<close>

fun wellFormedUnits :: "nat list \<Rightarrow> bool" where
  "wellFormedUnits [] = True"
| "wellFormedUnits [u] = (\<not> isHighSurrogate u \<and> \<not> isLowSurrogate u)"
| "wellFormedUnits (u # l # rest) =
     (if isHighSurrogate u then isLowSurrogate l \<and> wellFormedUnits rest
      else \<not> isLowSurrogate u \<and> wellFormedUnits (l # rest))"

definition wellFormed :: "jsString \<Rightarrow> bool" where
  "wellFormed s = wellFormedUnits (map unat s)"

text \<open>
  What the code relies on the authenticated cipher for: a ciphertext is the message
  extended by a tag of \<open>ABYTES\<close> bytes, and decrypting it with the same nonce and key
  gives the message back.
\<close>

definition aeadContract :: "cryptoLib \<Rightarrow> bool" where
  "aeadContract lib =
     (\<forall>msg nonce key c. aeadEncrypt lib msg nonce key = Inr c \<longrightarrow>
        length c = length msg + ABYTES \<and> aeadDecrypt lib c nonce key = Some msg)"

text \<open>
  The round trip of section 8: encrypt, then decrypt the ciphertext with the same salt,
  nonce and password and no cache key, on the cache as encryption left it.
\<close>

definition roundTrip ::
  "cryptoLib \<Rightarrow> jsString \<Rightarrow> jsString \<Rightarrow> jsString \<Rightarrow> jsString \<Rightarrow> cacheState \<Rightarrow>
   cryptoError + jsString" where
  "roundTrip lib p salt nonce password ch =
     (case encryptDataWithNonce lib p salt nonce password ch of
        Inl e \<Rightarrow> Inl e
      | Inr (ciphertextHex, ch') \<Rightarrow>
          map_sum id fst (decryptDataWithNonce lib ciphertextHex nonce salt password None ch'))"

text \<open>
  A stand-in for the libraries, for the concrete evaluations: a constant key, and a
  cipher that appends a tag of sixteen zero bytes and verifies it.
\<close>

definition toyLib :: cryptoLib where
  "toyLib =
     \<lparr>argon2id = (\<lambda>password salt. Inr (replicate 32 1)),
      aeadEncrypt = (\<lambda>msg nonce key. Inr (msg @ replicate 16 0)),
      aeadDecrypt = (\<lambda>c nonce key.
         if 16 \<le> length c \<and> drop (length c - 16) c = replicate 16 0
         then Some (take (length c - 16) c) else None)\<rparr>"

definition emptyCache :: cacheState where
  "emptyCache = \<lparr>keyCache = Map.empty, fieldCache = Map.empty\<rparr>"

definition toySecrets :: secrets where
  "toySecrets = \<lparr>sec_salt = js ''00'', sec_nonce = js ''0a'', sec_password = js ''pw''\<rparr>"

definition goodDoc :: doc where
  "goodDoc = \<lparr>doc_id = js ''1'', doc_tenantId = js ''t1'',
              doc_text = hexEncode (utf8Encode (js ''hi'') @ replicate 16 0),
              doc_updatedAt = None\<rparr>"

definition badDoc :: doc where
  "badDoc = \<lparr>doc_id = js ''2'', doc_tenantId = js ''t1'',
             doc_text = hexEncode (replicate 16 1), doc_updatedAt = None\<rparr>"

section \<open>Facts about the repository operations\<close>

lemma notDeletedFor_iff: "notDeletedFor u m \<longleftrightarrow> \<not> hiddenFor u m"
  by (auto simp: notDeletedFor_def hiddenFor_def elemMatchUser_def list_ex_iff
      split: option.splits)

lemma unreadQuery_tagged:
  "tenantId m = t \<Longrightarrow> unreadQuery c u t m \<longleftrightarrow>
     (chatId m = c \<and> senderId m \<noteq> u \<and> u \<notin> set (viewers m) \<and> \<not> hiddenFor u m)"
  by (simp add: unreadQuery_def notDeletedFor_iff)

lemma getUnreadCount_spec:
  "tagged t (dbs w t) \<Longrightarrow> getUnreadCount c u t w = unreadSpec (messages (dbs w t)) c u"
  unfolding getUnreadCount_def unreadSpec_def getTenantModels_def tagged_def
  by (rule arg_cong[where f=length], rule filter_cong)
     (auto simp: list_all_iff unreadQuery_tagged)

lemma findUserById_Some:
  "findUserById d u = Some usr \<Longrightarrow> usr \<in> set (chatUsers d) \<and> uid usr = u"
  unfolding findUserById_def by (auto simp: find_Some_iff)


lemma findMessageById_Some:
  "findMessageById d i = Some m \<Longrightarrow> m \<in> set (messages d) \<and> mid m = i"
  unfolding findMessageById_def by (auto simp: find_Some_iff)

lemma tagged_saveMessage: "tagged t d \<Longrightarrow> tenantId m = t \<Longrightarrow> tagged t (saveMessage d m)"
  by (auto simp: tagged_def saveMessage_def list_all_iff)


lemma emitToUser_mem:
  "(sid, ev) \<in> set (emitToUser usr ev') \<longleftrightarrow> sid \<in> set (socketIds usr) \<and> ev = ev'"
  by (auto simp: emitToUser_def)

lemma chatUsers_saveMessage [simp]: "chatUsers (saveMessage d m) = chatUsers d"
  by (simp add: saveMessage_def)

lemma findUserById_saveMessage [simp]: "findUserById (saveMessage d m) u = findUserById d u"
  by (simp add: findUserById_def)

lemma chatUsers_updateMany [simp]: "chatUsers (updateManyAddViewer d c u) = chatUsers d"
  by (simp add: updateManyAddViewer_def)

lemma findUserById_updateMany [simp]:
  "findUserById (updateManyAddViewer d c u) v = findUserById d v"
  by (simp add: findUserById_def)

lemma dbs_put [simp]: "dbs (putTenantModels t d w) t = d"
  by (simp add: putTenantModels_def)

lemma dbs_put_other [simp]: "t' \<noteq> t \<Longrightarrow> dbs (putTenantModels t d w) t' = dbs w t'"
  by (simp add: putTenantModels_def)

subsection \<open>Unread counts that handlers push\<close>







lemma tagged_after_mark:
  assumes "tagged (data_tenantId sock) (dbs w (data_tenantId sock))"
  shows "tagged (data_tenantId sock)
     (dbs (after (markMessageAsRead idn sock nw c i u w)) (data_tenantId sock))"
proof (cases "findMessageById (dbs w (data_tenantId sock)) i")
  case None
  then show ?thesis
    using assms by (simp add: markMessageAsRead_def silent_def getTenantModels_def)
next
  case (Some m)
  then have "tenantId m = data_tenantId sock"
    using assms findMessageById_Some[OF Some] by (auto simp: tagged_def list_all_iff)
  then have "tagged (data_tenantId sock)
      (saveMessage (dbs w (data_tenantId sock)) (m\<lparr>viewers := jsSet (viewers m) @ [u]\<rparr>))"
    using assms by (intro tagged_saveMessage) simp_all
  then show ?thesis
    using assms Some
    by (simp add: markMessageAsRead_def silent_def getTenantModels_def Let_def)
qed


lemma populate_mem:
  "pu \<in> set (populateParticipants d ch) \<longleftrightarrow>
     (\<exists>p \<in> set (participants ch). findUserById d p = Some pu)"
  by (force simp: populateParticipants_def List.map_filter_def)

lemma populate_find:
  "pu \<in> set (populateParticipants d ch) \<Longrightarrow> findUserById d (uid pu) = Some pu"
  by (auto simp: populate_mem dest: findUserById_Some)

text \<open>
  The shape all fan-out loops of the handlers share: for every populated participant
  that passes a test, look the ChatUser document up again and emit to each of its
  socket ids.
\<close>

lemma fanout_mem:
  assumes look: "\<And>x. look x = findUserById d x"
  shows "(sid, ev) \<in> set (concat (map (\<lambda>participant.
             if g (uid participant)
             then (case look (uid participant) of
                     None \<Rightarrow> []
                   | Some pu \<Rightarrow> emitToUser pu (f (uid participant)))
             else [])
           (populateParticipants d ch)))
     \<longleftrightarrow> (\<exists>p \<in> set (participants ch). g p
            \<and> (\<exists>pu. findUserById d p = Some pu \<and> sid \<in> set (socketIds pu)) \<and> ev = f p)"
    (is "?L \<longleftrightarrow> ?R")
proof
  assume ?L
  then obtain x where x: "x \<in> set (populateParticipants d ch)" and g: "g (uid x)"
    and in_x: "(sid, ev) \<in> set (case look (uid x) of
                    None \<Rightarrow> [] | Some pu \<Rightarrow> emitToUser pu (f (uid x)))"
    by (auto split: if_splits)
  from x have fx: "findUserById d (uid x) = Some x" by (rule populate_find)
  from x obtain p where p: "p \<in> set (participants ch)" "findUserById d p = Some x"
    by (auto simp: populate_mem)
  then have "uid x = p" by (auto dest: findUserById_Some)
  with in_x fx p g show ?R by (auto simp: look emitToUser_mem)
next
  assume ?R
  then obtain p pu where p: "p \<in> set (participants ch)" "g p" "findUserById d p = Some pu"
    "sid \<in> set (socketIds pu)" "ev = f p" by blast
  then have pu: "pu \<in> set (populateParticipants d ch)" "uid pu = p"
    by (auto simp: populate_mem dest: findUserById_Some)
  let ?F = "\<lambda>participant.
             if g (uid participant)
             then (case look (uid participant) of
                     None \<Rightarrow> []
                   | Some pu \<Rightarrow> emitToUser pu (f (uid participant)))
             else []"
  have "(sid, ev) \<in> set (?F pu)"
    using p pu by (simp add: look emitToUser_mem)
  with pu(1) have "\<exists>x \<in> set (populateParticipants d ch). (sid, ev) \<in> set (?F x)"
    by blast
  then show ?L unfolding set_concat set_map by blast
qed

subsection \<open>Sorting by creation time\<close>

lemma desc_sorted: "sorted_wrt (\<lambda>a b. createdAt b \<le> createdAt a) (sortCreatedAtDesc ms)"
proof -
  have "sorted (map createdAt (sort_key createdAt ms))" by (rule sorted_sort_key)
  then have "sorted_wrt (\<lambda>a b. createdAt a \<le> createdAt b) (sort_key createdAt ms)"
    by (simp add: sorted_map)
  then show ?thesis
    unfolding sortCreatedAtDesc_def by (simp add: sorted_wrt_rev)
qed

lemma mset_desc [simp]: "mset (sortCreatedAtDesc ms) = mset ms"
  by (simp add: sortCreatedAtDesc_def)

lemma length_desc [simp]: "length (sortCreatedAtDesc ms) = length ms"
  by (simp add: sortCreatedAtDesc_def)

lemma take_newest:
  assumes "sorted_wrt (\<lambda>a b. createdAt b \<le> createdAt a) xs"
  shows "\<forall>x \<in> set (drop n xs). \<forall>y \<in> set (take n xs). createdAt x \<le> createdAt y"
proof -
  have "sorted_wrt (\<lambda>a b. createdAt b \<le> createdAt a) (take n xs @ drop n xs)"
    using assms by simp
  then show ?thesis unfolding sorted_wrt_append by blast
qed

lemma take_asc:
  assumes "sorted_wrt (\<lambda>a b. createdAt b \<le> createdAt a) xs"
  shows "sorted (map createdAt (rev (take n xs)))"
proof -
  have "sorted_wrt (\<lambda>a b. createdAt b \<le> createdAt a) (take n xs)"
    using assms by (rule sorted_wrt_take)
  then have "sorted_wrt (\<lambda>a b. createdAt a \<le> createdAt b) (rev (take n xs))"
    by (simp add: sorted_wrt_rev)
  then show ?thesis by (simp add: sorted_map)
qed

lemma mset_take_diff: "mset xs - mset (take n xs) = mset (drop n xs)"
proof -
  have "mset xs = mset (take n xs) + mset (drop n xs)"
    by (metis append_take_drop_id mset_append)
  then show ?thesis by simp
qed

lemma mset_take_sub: "mset (take n xs) \<subseteq># mset xs"
  by (metis append_take_drop_id mset_append mset_subset_eq_add_left)

lemma mset_take_mono: "n \<le> k \<Longrightarrow> mset (take n xs) \<subseteq># mset (take k xs)"
proof -
  assume "n \<le> k"
  then have "take n xs = take n (take k xs)" by (simp add: min_def)
  then show ?thesis by (metis mset_take_sub)
qed

lemma tagged_filter:
  "tagged t d \<Longrightarrow> filter (\<lambda>m. chatId m = c \<and> tenantId m = t) (messages d) = filter (\<lambda>m. chatId m = c) (messages d)"
  by (rule filter_cong) (auto simp: tagged_def list_all_iff)

lemma history_shape:
  assumes "1 \<le> p" "tagged (data_tenantId sock) (dbs w (data_tenantId sock))"
  shows "getMessageHistory idn sock c p w =
     \<lparr>after = w,
      emitted = [(socket_id sock,
         MessageHistory
           (map (populateSender idn (dbs w (data_tenantId sock)))
              (rev (take (nat (10 * p)) (sortCreatedAtDesc (filter (\<lambda>m. chatId m = c) (messages (dbs w (data_tenantId sock))))))))
           (int (length (filter (\<lambda>m. chatId m = c) (messages (dbs w (data_tenantId sock))))) > (p - 1) * (10 * p) + 10 * p)
           (length (filter (\<lambda>m. chatId m = c) (messages (dbs w (data_tenantId sock))))) p)],
      logged = None\<rparr>"
  using assms
  by (simp add: getMessageHistory_def Let_def getTenantModels_def mongoLimit_def tagged_filter rev_map)

lemma fst_populateSender [simp]: "fst \<circ> populateSender idn d = id"
  by (rule ext) (simp add: populateSender_def)

lemma historyMessages_eq:
  assumes "1 \<le> p" "tagged (data_tenantId sock) (dbs w (data_tenantId sock))"
  shows "historyMessages (getMessageHistory idn sock c p w) =
     rev (take (nat (10 * p)) (sortCreatedAtDesc (filter (\<lambda>m. chatId m = c) (messages (dbs w (data_tenantId sock))))))"
  by (simp add: history_shape[OF assms] historyMessages_def)



subsection \<open>What the handlers touch and return\<close>

lemma set_desc [simp]: "set (sortCreatedAtDesc ms) = set ms"
  by (simp add: sortCreatedAtDesc_def)

lemma findLatest_Some:
  assumes "findLatest q ms = Some m"
  shows "m \<in> set ms \<and> q m \<and> (\<forall>m' \<in> set ms. q m' \<longrightarrow> createdAt m' \<le> createdAt m)"
proof -
  from assms obtain rest where eq: "sortCreatedAtDesc (filter q ms) = m # rest"
    by (auto simp: findLatest_def split: list.splits)
  have "set (m # rest) = set (filter q ms)"
    using eq set_desc[of "filter q ms"] by simp
  then have mem: "m \<in> set ms" "q m" and all: "\<forall>m' \<in> set ms. q m' \<longrightarrow> m' \<in> set (m # rest)"
    by auto
  have "sorted_wrt (\<lambda>a b. createdAt b \<le> createdAt a) (m # rest)"
    using desc_sorted[of "filter q ms"] eq by simp
  then have "\<forall>x \<in> set (m # rest). createdAt x \<le> createdAt m" by auto
  with mem all show ?thesis by blast
qed

lemma findLatest_None: "findLatest q ms = None \<longleftrightarrow> filter q ms = []"
proof -
  have "sortCreatedAtDesc (filter q ms) = [] \<longleftrightarrow> filter q ms = []"
    by (metis length_desc length_0_conv)
  then show ?thesis by (auto simp: findLatest_def split: list.splits)
qed

lemma messages_delete [simp]: "messages (findByIdAndDelete d i) = filter (\<lambda>m. mid m \<noteq> i) (messages d)"
  by (simp add: findByIdAndDelete_def)
lemma chats_delete [simp]: "chats (findByIdAndDelete d i) = chats d"
  by (simp add: findByIdAndDelete_def)
lemma chatUsers_delete [simp]: "chatUsers (findByIdAndDelete d i) = chatUsers d"
  by (simp add: findByIdAndDelete_def)
lemma messages_updLast [simp]: "messages (findByIdAndUpdateLastMessage d c i) = messages d"
  by (simp add: findByIdAndUpdateLastMessage_def)
lemma chatUsers_updLast [simp]: "chatUsers (findByIdAndUpdateLastMessage d c i) = chatUsers d"
  by (simp add: findByIdAndUpdateLastMessage_def)








lemma find_message_Some:
  "find q (messages d) = Some m \<Longrightarrow> m \<in> set (messages d) \<and> q m"
  by (auto simp: find_Some_iff)













lemma deleteMessage_forMe:
  "find (\<lambda>m. mid m = i \<and> chatId m = c \<and> tenantId m = data_tenantId sock)
     (messages (dbs w (data_tenantId sock))) = Some m \<Longrightarrow>
   deleteMessage sock nw i c u ForMe w = deleteForMe (data_tenantId sock) nw m c u w"
  by (simp add: deleteMessage_def getTenantModels_def)






subsection \<open>The small deployment\<close>

lemma world1_t1 [simp]: "dbs world1 ''t1'' = db1"
  by (simp add: world1_def)

lemma tagged_world1: "tagged ''t1'' (dbs world1 ''t1'')"
  by (simp add: tagged_def db1_def msg1_def msg2_def)


section \<open>Tenant isolation\<close>




section \<open>What the read and count fan-outs emit\<close>

lemma set_jsSet [simp]: "set (jsSet xs) = set xs"
  by (simp add: jsSet_def)

lemma distinct_jsSet [simp]: "distinct (jsSet xs)"
  by (simp add: jsSet_def)

lemma find_map_update:
  "find (\<lambda>x. mid x = i) ms = Some m \<Longrightarrow> mid m' = i \<Longrightarrow>
   find (\<lambda>x. mid x = i) (map (\<lambda>x. if mid x = i then m' else x) ms) = Some m'"
  by (induction ms) (auto split: if_splits)

lemma findMessageById_save:
  "findMessageById d i = Some m \<Longrightarrow> mid m' = mid m \<Longrightarrow>
   findMessageById (saveMessage d m') i = Some m'"
  using findMessageById_Some[of d i m] find_map_update[of i "messages d" m m']
  by (simp add: findMessageById_def saveMessage_def)

lemma chats_saveMessage [simp]: "chats (saveMessage d m) = chats d"
  by (simp add: saveMessage_def)

lemma writes_saveMessage [simp]: "writes (saveMessage d m) = Suc (writes d)"
  by (simp add: saveMessage_def)

lemma findChatById_saveMessage [simp]: "findChatById (saveMessage d m) c = findChatById d c"
  by (simp add: findChatById_def)

lemma populate_saveMessage [simp]:
  "populateParticipants (saveMessage d m) ch = populateParticipants d ch"
  by (simp add: populateParticipants_def List.map_filter_def)


lemma mark_already:
  "findMessageById (dbs w (data_tenantId sock)) i = Some m \<Longrightarrow> u \<in> set (viewers m) \<Longrightarrow>
   markMessageAsRead idn sock nw c i u w =
     \<lparr>after = w, emitted = readFanout idn (dbs w (data_tenantId sock)) nw c i u, logged = None\<rparr>"
  by (simp add: markMessageAsRead_def getTenantModels_def Let_def)

lemma mark_new:
  "findMessageById (dbs w (data_tenantId sock)) i = Some m \<Longrightarrow> u \<notin> set (viewers m) \<Longrightarrow>
   markMessageAsRead idn sock nw c i u w =
     \<lparr>after = putTenantModels (data_tenantId sock)
                (saveMessage (dbs w (data_tenantId sock)) (m\<lparr>viewers := jsSet (viewers m) @ [u]\<rparr>)) w,
      emitted = readFanout idn (dbs w (data_tenantId sock)) nw c i u
                @ countFanout (dbs w (data_tenantId sock)) (data_tenantId sock)
                    (putTenantModels (data_tenantId sock)
                (saveMessage (dbs w (data_tenantId sock)) (m\<lparr>viewers := jsSet (viewers m) @ [u]\<rparr>)) w) c,
      logged = None\<rparr>"
  by (simp add: markMessageAsRead_def getTenantModels_def Let_def)

lemma readFanout_isRead:
  "(sid, ev) \<in> set (readFanout idn d nw c i u) \<Longrightarrow> isMessageRead ev"
  by (auto simp: readFanout_def emitToUser_mem split: option.splits)

lemma countFanout_isCount:
  "(sid, ev) \<in> set (countFanout d t w c) \<Longrightarrow> isUnreadCountUpdate ev"
  by (auto simp: countFanout_def emitToUser_mem Let_def split: option.splits)

lemma readFanout_save [simp]: "readFanout idn (saveMessage d m) nw c i u = readFanout idn d nw c i u"
  by (simp add: readFanout_def split: option.splits)

lemma filter_none: "(\<And>x. x \<in> set xs \<Longrightarrow> \<not> P x) \<Longrightarrow> filter P xs = []"
  by (induction xs) auto

lemma isRead_notCount: "isMessageRead ev \<Longrightarrow> \<not> isUnreadCountUpdate ev"
  by (cases ev) auto

lemma count_part_readFanout:
  "filter (\<lambda>x. isUnreadCountUpdate (snd x)) (readFanout idn d nw c i u) = []"
  by (rule filter_none) (auto dest!: readFanout_isRead isRead_notCount)

lemma put_put [simp]: "putTenantModels t d (putTenantModels t d' w) = putTenantModels t d w"
  by (simp add: putTenantModels_def)

lemma readFanout_mem:
  "(sid, ev) \<in> set (readFanout idn d nw c i u) \<longleftrightarrow>
     (\<exists>ch ud. findChatById d c = Some ch \<and> getUserDetailsByToken idn u = Some ud
        \<and> (\<exists>p \<in> set (participants ch).
               \<exists>pu. findUserById d p = Some pu \<and> sid \<in> set (socketIds pu))
        \<and> ev = MessageRead i c u nw
                 \<lparr>reader_id = iam_id ud,
                  displayName = firstname ud @ '' '' @ lastname ud,
                  reader_image = profile_image ud\<rparr>)"
proof (cases "findChatById d c")
  case None
  then show ?thesis by (simp add: readFanout_def)
next
  case (Some ch)
  show ?thesis
  proof (cases "getUserDetailsByToken idn u")
    case None
    then show ?thesis using Some by (simp add: readFanout_def)
  next
    case (Some ud)
    show ?thesis
      using fanout_mem[of "findUserById d" d sid ev "\<lambda>_. True"
          "\<lambda>_. MessageRead i c u nw (readerOf ud)" ch]
      by (simp add: readFanout_def \<open>findChatById d c = Some ch\<close> Some readerOf_def)
  qed
qed

lemma countFanout_mem:
  assumes "\<And>x. findUserById (dbs w' t) x = findUserById d x"
  shows "(sid, ev) \<in> set (countFanout d t w' c) \<longleftrightarrow>
     (\<exists>ch. findChatById d c = Some ch
        \<and> (\<exists>p \<in> set (participants ch).
               (\<exists>pu. findUserById d p = Some pu \<and> sid \<in> set (socketIds pu))
               \<and> ev = UnreadCountUpdate c (getUnreadCount c p t w')))"
proof (cases "findChatById d c")
  case None
  then show ?thesis by (simp add: countFanout_def)
next
  case (Some ch)
  show ?thesis
    using fanout_mem[of "findUserById (dbs w' t)" d sid ev "\<lambda>_. True"
        "\<lambda>p. UnreadCountUpdate c (getUnreadCount c p t w')" ch] assms
    by (simp add: countFanout_def Some getTenantModels_def Let_def)
qed

lemma findChatById_updateMany [simp]:
  "findChatById (updateManyAddViewer d c u) c' = findChatById d c'"
  by (simp add: findChatById_def updateManyAddViewer_def)

lemma populate_updateMany [simp]:
  "populateParticipants (updateManyAddViewer d c u) ch = populateParticipants d ch"
  by (simp add: populateParticipants_def List.map_filter_def)




lemma readReceipt_append:
  assumes "\<And>sid ev. (sid, ev) \<in> set rest \<Longrightarrow> \<not> isMessageRead ev"
  shows "readReceiptToAll idn d nw c i u (readFanout idn d nw c i u @ rest)"
  unfolding readReceiptToAll_def
proof (intro allI)
  fix sid ev
  have "((sid, ev) \<in> set (readFanout idn d nw c i u @ rest) \<and> isMessageRead ev)
          = ((sid, ev) \<in> set (readFanout idn d nw c i u))"
    using assms[of sid ev] readFanout_isRead[of sid ev idn d nw c i u] by auto
  then show "((sid, ev) \<in> set (readFanout idn d nw c i u @ rest) \<and> isMessageRead ev) =
        (\<exists>ch ud. findChatById d c = Some ch \<and> getUserDetailsByToken idn u = Some ud
           \<and> (\<exists>p \<in> set (participants ch).
                  \<exists>pu. findUserById d p = Some pu \<and> sid \<in> set (socketIds pu))
           \<and> ev = MessageRead i c u nw
                    \<lparr>reader_id = iam_id ud,
                     displayName = firstname ud @ '' '' @ lastname ud,
                     reader_image = profile_image ud\<rparr>)"
    by (simp only: readFanout_mem)
qed

lemma countsPushed_append:
  assumes pre: "\<And>sid ev. (sid, ev) \<in> set pre \<Longrightarrow> \<not> isUnreadCountUpdate ev"
    and look: "\<And>x. findUserById (dbs w' t) x = findUserById d x"
    and chs: "findChatById (dbs w' t) c = findChatById d c"
  shows "countsPushed (\<lambda>p. getUnreadCount c p t w') (\<lambda>p. True) (dbs w' t) c
           (pre @ countFanout d t w' c)"
  unfolding countsPushed_def
proof (intro allI)
  fix sid ev
  have "((sid, ev) \<in> set (pre @ countFanout d t w' c) \<and> isUnreadCountUpdate ev)
          = ((sid, ev) \<in> set (countFanout d t w' c))"
    using pre[of sid ev] countFanout_isCount[of sid ev d t w' c] by auto
  then show "((sid, ev) \<in> set (pre @ countFanout d t w' c) \<and> isUnreadCountUpdate ev) =
        (\<exists>ch. findChatById (dbs w' t) c = Some ch
           \<and> (\<exists>p \<in> set (participants ch). True
                  \<and> (\<exists>pu. findUserById (dbs w' t) p = Some pu \<and> sid \<in> set (socketIds pu))
                  \<and> ev = UnreadCountUpdate c (getUnreadCount c p t w')))"
    by (simp only: countFanout_mem[OF look] look chs simp_thms)
qed

lemma readReceipt_only:
  "readReceiptToAll idn d nw c i u (readFanout idn d nw c i u)"
  using readReceipt_append[of "[]" idn d nw c i u] by simp



section \<open>Unread counts\<close>





section \<open>Marking a message as read\<close>

text \<open>
  Claim C4, as the code has it. Marking the same stored message read twice by the same
  participant: the second call leaves the state of the first, so at most one write is
  issued, and the participant is a viewer afterwards. A participant who was not a viewer
  before has exactly one viewer entry afterwards and costs exactly one write, and the
  first call then pushes to every live handle of every participant of the chat that
  participant's unread count, recomputed on the store after the write, and to no other
  socket; in a tenant's own store, where every document carries the tenant's tag, that
  is the count of section 4.4. For a participant already in the viewer list the call
  leaves the state, so the list, as it was and pushes no unread count. The
  \<^verbatim>\<open>messageRead\<close> fan-out is not tied to a net-new viewer: each of the two calls emits
  it to every live handle of every participant of the chat, and to no other socket,
  whenever the chat and the reader's details resolve, and emits none otherwise.
\<close>

theorem mark_read_twice:
  assumes found: "findMessageById (dbs w (data_tenantId sock)) i = Some m"
  shows
   "(\<exists>m'. findMessageById
             (dbs (after (markMessageAsRead idn sock nw' c i u
                            (after (markMessageAsRead idn sock nw c i u w)))) (data_tenantId sock)) i
            = Some m'
          \<and> u \<in> set (viewers m')
          \<and> count_list (viewers m') u
              = (if u \<in> set (viewers m) then count_list (viewers m) u else 1))
    \<and> after (markMessageAsRead idn sock nw' c i u (after (markMessageAsRead idn sock nw c i u w)))
        = after (markMessageAsRead idn sock nw c i u w)
    \<and> writes (dbs (after (markMessageAsRead idn sock nw' c i u
                            (after (markMessageAsRead idn sock nw c i u w)))) (data_tenantId sock))
        \<le> Suc (writes (dbs w (data_tenantId sock)))
    \<and> (u \<in> set (viewers m) \<longrightarrow>
          after (markMessageAsRead idn sock nw c i u w) = w
          \<and> filter (\<lambda>x. isUnreadCountUpdate (snd x)) (emitted (markMessageAsRead idn sock nw c i u w)) = [])
    \<and> (u \<notin> set (viewers m) \<longrightarrow>
          writes (dbs (after (markMessageAsRead idn sock nw c i u w)) (data_tenantId sock))
            = Suc (writes (dbs w (data_tenantId sock)))
          \<and> countsPushed
               (\<lambda>p. getUnreadCount c p (data_tenantId sock)
                      (after (markMessageAsRead idn sock nw c i u w)))
               (\<lambda>p. True)
               (dbs (after (markMessageAsRead idn sock nw c i u w)) (data_tenantId sock)) c
               (emitted (markMessageAsRead idn sock nw c i u w))
          \<and> (tagged (data_tenantId sock) (dbs w (data_tenantId sock)) \<longrightarrow>
                countsPushed
                  (\<lambda>p. unreadSpec
                         (messages (dbs (after (markMessageAsRead idn sock nw c i u w))
                                      (data_tenantId sock))) c p)
                  (\<lambda>p. True)
                  (dbs (after (markMessageAsRead idn sock nw c i u w)) (data_tenantId sock)) c
                  (emitted (markMessageAsRead idn sock nw c i u w))))
    \<and> readReceiptToAll idn (dbs w (data_tenantId sock)) nw c i u
         (emitted (markMessageAsRead idn sock nw c i u w))
    \<and> readReceiptToAll idn (dbs w (data_tenantId sock)) nw' c i u
         (emitted (markMessageAsRead idn sock nw' c i u (after (markMessageAsRead idn sock nw c i u w))))"
proof (cases "u \<in> set (viewers m)")
  case True
  note r1 = mark_already[OF found True]
  have r2: "markMessageAsRead idn sock nw' c i u (after (markMessageAsRead idn sock nw c i u w))
      = \<lparr>after = w, emitted = readFanout idn (dbs w (data_tenantId sock)) nw' c i u, logged = None\<rparr>"
    using mark_already[OF found True, of idn nw' c] by (simp add: r1)
  show ?thesis
    using True found
    by (simp add: r1 r2 count_part_readFanout readReceipt_only)
next
  case False
  let ?t = "data_tenantId sock"
  let ?m' = "m\<lparr>viewers := jsSet (viewers m) @ [u]\<rparr>"
  let ?w' = "putTenantModels ?t (saveMessage (dbs w ?t) ?m') w"
  note r1 = mark_new[OF found False]
  have a1: "after (markMessageAsRead idn sock nw c i u w) = ?w'" by (simp add: r1)
  have e1: "emitted (markMessageAsRead idn sock nw c i u w)
      = readFanout idn (dbs w ?t) nw c i u @ countFanout (dbs w ?t) ?t ?w' c"
    by (simp add: r1)
  have found': "findMessageById (dbs ?w' ?t) i = Some ?m'"
    using findMessageById_save[OF found, of ?m'] by simp
  have inv: "u \<in> set (viewers ?m')" by simp
  have r2: "markMessageAsRead idn sock nw' c i u ?w'
      = \<lparr>after = ?w', emitted = readFanout idn (dbs ?w' ?t) nw' c i u, logged = None\<rparr>"
    by (rule mark_already[OF found' inv])
  have e2: "emitted (markMessageAsRead idn sock nw' c i u ?w')
      = readFanout idn (dbs w ?t) nw' c i u"
    by (simp add: r2)
  have cnt: "count_list (viewers ?m') u = 1"
    using False by simp
  have A: "\<exists>m'. findMessageById (dbs (after (markMessageAsRead idn sock nw' c i u ?w')) ?t) i = Some m'
          \<and> u \<in> set (viewers m')
          \<and> count_list (viewers m') u
              = (if u \<in> set (viewers m) then count_list (viewers m) u else 1)"
    using False found' cnt by (simp add: r2)
  have B: "after (markMessageAsRead idn sock nw' c i u ?w') = ?w'" by (simp add: r2)
  have C: "writes (dbs ?w' ?t) = Suc (writes (dbs w ?t))" by simp
  have E: "countsPushed (\<lambda>p. getUnreadCount c p ?t ?w') (\<lambda>p. True) (dbs ?w' ?t) c
             (readFanout idn (dbs w ?t) nw c i u @ countFanout (dbs w ?t) ?t ?w' c)"
    by (rule countsPushed_append) (auto dest!: readFanout_isRead isRead_notCount)
  have E': "countsPushed (\<lambda>p. unreadSpec (messages (dbs ?w' ?t)) c p) (\<lambda>p. True) (dbs ?w' ?t) c
             (readFanout idn (dbs w ?t) nw c i u @ countFanout (dbs w ?t) ?t ?w' c)"
    if tg: "tagged ?t (dbs w ?t)"
  proof -
    have "tagged ?t (dbs ?w' ?t)"
      using tagged_after_mark[OF tg, of idn nw c i u] by (simp only: a1)
    from getUnreadCount_spec[OF this] E show ?thesis by simp
  qed
  have F1: "readReceiptToAll idn (dbs w ?t) nw c i u
             (readFanout idn (dbs w ?t) nw c i u @ countFanout (dbs w ?t) ?t ?w' c)"
    by (rule readReceipt_append) (auto dest!: countFanout_isCount isRead_notCount)
  have F2: "readReceiptToAll idn (dbs w ?t) nw' c i u (readFanout idn (dbs w ?t) nw' c i u)"
    by (rule readReceipt_only)
  show ?thesis
    unfolding a1 e1 B e2
    using A[unfolded B] C E E' F1 F2 False by simp
qed

theorem mark_read_twice_witness:
  "findMessageById (dbs world1 (data_tenantId sock2)) 2 = Some msg2
   \<and> 2 \<notin> set (viewers msg2)
   \<and> (\<exists>m'. findMessageById
              (dbs (after (markMessageAsRead iam1 sock2 301 1 2 2
                             (after (markMessageAsRead iam1 sock2 300 1 2 2 world1))))
                 (data_tenantId sock2)) 2 = Some m'
           \<and> count_list (viewers m') 2 = 1)
   \<and> after (markMessageAsRead iam1 sock2 301 1 2 2
              (after (markMessageAsRead iam1 sock2 300 1 2 2 world1)))
       = after (markMessageAsRead iam1 sock2 300 1 2 2 world1)
   \<and> writes (dbs (after (markMessageAsRead iam1 sock2 301 1 2 2
                           (after (markMessageAsRead iam1 sock2 300 1 2 2 world1))))
                (data_tenantId sock2)) \<le> 1
   \<and> writes (dbs (after (markMessageAsRead iam1 sock2 300 1 2 2 world1)) (data_tenantId sock2))
       = 1
   \<and> tagged (data_tenantId sock2) (dbs world1 (data_tenantId sock2))
   \<and> countsPushed
        (\<lambda>p. unreadSpec
               (messages (dbs (after (markMessageAsRead iam1 sock2 300 1 2 2 world1))
                            (data_tenantId sock2))) 1 p)
        (\<lambda>p. True)
        (dbs (after (markMessageAsRead iam1 sock2 300 1 2 2 world1)) (data_tenantId sock2)) 1
        (emitted (markMessageAsRead iam1 sock2 300 1 2 2 world1))
   \<and> readReceiptToAll iam1 (dbs world1 (data_tenantId sock2)) 301 1 2 2
        (emitted (markMessageAsRead iam1 sock2 301 1 2 2
                    (after (markMessageAsRead iam1 sock2 300 1 2 2 world1))))
   \<and> emitted (markMessageAsRead iam1 sock2 300 1 2 2 world1)
       = [(10, MessageRead 2 1 2 300
                 \<lparr>reader_id = 2, displayName = ''Ada Ko'', reader_image = []\<rparr>),
          (20, MessageRead 2 1 2 300
                 \<lparr>reader_id = 2, displayName = ''Ada Ko'', reader_image = []\<rparr>),
          (21, MessageRead 2 1 2 300
                 \<lparr>reader_id = 2, displayName = ''Ada Ko'', reader_image = []\<rparr>),
          (10, UnreadCountUpdate 1 0), (20, UnreadCountUpdate 1 0), (21, UnreadCountUpdate 1 0)]"
proof -
  have found: "findMessageById (dbs world1 (data_tenantId sock2)) 2 = Some msg2"
    by (simp add: sock2_def findMessageById_def db1_def msg1_def msg2_def)
  have w0: "writes (dbs world1 (data_tenantId sock2)) = 0"
    by (simp add: sock2_def db1_def)
  have nv: "2 \<notin> set (viewers msg2)" by (simp add: msg2_def)
  have em: "emitted (markMessageAsRead iam1 sock2 300 1 2 2 world1)
       = [(10, MessageRead 2 1 2 300
                 \<lparr>reader_id = 2, displayName = ''Ada Ko'', reader_image = []\<rparr>),
          (20, MessageRead 2 1 2 300
                 \<lparr>reader_id = 2, displayName = ''Ada Ko'', reader_image = []\<rparr>),
          (21, MessageRead 2 1 2 300
                 \<lparr>reader_id = 2, displayName = ''Ada Ko'', reader_image = []\<rparr>),
          (10, UnreadCountUpdate 1 0), (20, UnreadCountUpdate 1 0), (21, UnreadCountUpdate 1 0)]"
    by (simp add: markMessageAsRead_def readFanout_def countFanout_def sock2_def
        getTenantModels_def
        findMessageById_def findChatById_def findUserById_def populateParticipants_def
        List.map_filter_def db1_def msg1_def msg2_def jsSet_def iam1_def emitToUser_def
        saveMessage_def putTenantModels_def getUnreadCount_def unreadQuery_def
        notDeletedFor_def elemMatchUser_def world1_def readerOf_def Let_def)
  have tg: "tagged (data_tenantId sock2) (dbs world1 (data_tenantId sock2))"
    using tagged_world1 by (simp add: sock2_def)
  from mark_read_twice[OF found, of iam1 301 1 2 300] found w0 nv em tg
  show ?thesis by auto
qed

text \<open>
  The claim as stated fails: participant 1 is already a viewer of message 1, yet
  marking it read again fans \<^verbatim>\<open>messageRead\<close> out to all three live handles of the chat.
\<close>

theorem mark_read_repeat_fans_out:
  "findMessageById (dbs world1 (data_tenantId sock1)) 1 = Some msg1
   \<and> 1 \<in> set (viewers msg1)
   \<and> after (markMessageAsRead iam1 sock1 300 1 1 1 world1) = world1
   \<and> emitted (markMessageAsRead iam1 sock1 300 1 1 1 world1)
       = [(10, MessageRead 1 1 1 300
                 \<lparr>reader_id = 1, displayName = ''Ada Ko'', reader_image = []\<rparr>),
          (20, MessageRead 1 1 1 300
                 \<lparr>reader_id = 1, displayName = ''Ada Ko'', reader_image = []\<rparr>),
          (21, MessageRead 1 1 1 300
                 \<lparr>reader_id = 1, displayName = ''Ada Ko'', reader_image = []\<rparr>)]"
  by (simp add: markMessageAsRead_def readFanout_def sock1_def getTenantModels_def
      findMessageById_def findChatById_def findUserById_def populateParticipants_def
      List.map_filter_def db1_def msg1_def msg2_def jsSet_def iam1_def emitToUser_def
      readerOf_def Let_def)


section \<open>Deleting a message for everyone\<close>

lemma findLatest_carries:
  assumes q: "\<And>m. m \<in> set ms \<Longrightarrow> q m \<longleftrightarrow> (chatId m = c \<and> \<not> hiddenFor u m)"
  shows "carriesLastVisible ms c u (map_option selectBodyCreatedAt (findLatest q ms))"
proof (cases "findLatest q ms")
  case None
  then have "filter q ms = []" by (simp add: findLatest_None)
  then have "\<forall>m \<in> set ms. \<not> q m" by (simp add: filter_empty_conv)
  then show ?thesis using None q by (auto simp: carriesLastVisible_def)
next
  case (Some m)
  from findLatest_Some[OF Some] q have "mostRecentVisible ms c u m"
    by (auto simp: mostRecentVisible_def)
  then show ?thesis using Some by (auto simp: carriesLastVisible_def selectBodyCreatedAt_def)
qed


lemma lastVisible_carries:
  "carriesLastVisible (messages d) c u (lastVisible d c u)"
  unfolding lastVisible_def
  by (rule findLatest_carries) (auto simp: notDeletedFor_iff)

lemma findChatById_delete [simp]: "findChatById (findByIdAndDelete d i) c = findChatById d c"
  by (simp add: findChatById_def)
lemma findUserById_delete [simp]: "findUserById (findByIdAndDelete d i) u = findUserById d u"
  by (simp add: findUserById_def)
lemma populate_delete [simp]: "populateParticipants (findByIdAndDelete d i) ch = populateParticipants d ch"
  by (simp add: populateParticipants_def List.map_filter_def)








section \<open>Deleting a message for oneself\<close>

lemma resetFirst_others:
  "filter (\<lambda>e. df_userId e \<noteq> u) (resetFirst u nw es) = filter (\<lambda>e. df_userId e \<noteq> u) es"
  by (induction es) auto

lemma resetFirst_users: "map df_userId (resetFirst u nw es) = map df_userId es"
  by (induction es) auto

lemma upsert_others:
  "filter (\<lambda>e. df_userId e \<noteq> u) (upsertDeletedFor u nw df)
     = filter (\<lambda>e. df_userId e \<noteq> u) (case df of None \<Rightarrow> [] | Some es \<Rightarrow> es)"
  by (auto simp: upsertDeletedFor_def resetFirst_others Let_def split: option.splits)

lemma find_None_users: "find (\<lambda>e. df_userId e = u) es = None \<longleftrightarrow> u \<notin> set (map df_userId es)"
  by (induction es) auto

lemma upsert_users:
  "set (map df_userId (upsertDeletedFor u nw df))
     = insert u (set (map df_userId (case df of None \<Rightarrow> [] | Some es \<Rightarrow> es)))"
proof (cases "find (\<lambda>e. df_userId e = u) (case df of None \<Rightarrow> [] | Some es \<Rightarrow> es)")
  case None
  then show ?thesis by (simp add: upsertDeletedFor_def)
next
  case (Some e)
  then have "u \<in> set (map df_userId (case df of None \<Rightarrow> [] | Some es \<Rightarrow> es))"
    using find_None_users[of u "case df of None \<Rightarrow> [] | Some es \<Rightarrow> es"] by auto
  then show ?thesis
    using Some by (auto simp: upsertDeletedFor_def resetFirst_users[simplified] simp del: set_map
        simp flip: set_map)
qed

lemma hiddenFor_users:
  "hiddenFor v m \<longleftrightarrow> v \<in> set (map df_userId (case deletedFor m of None \<Rightarrow> [] | Some es \<Rightarrow> es))"
  by (auto simp: hiddenFor_def)

lemma hiddenFor_upsert:
  "hiddenFor v (m\<lparr>deletedFor := Some (upsertDeletedFor u nw (deletedFor m))\<rparr>)
     \<longleftrightarrow> v = u \<or> hiddenFor v m"
  unfolding hiddenFor_users using upsert_users[of u nw "deletedFor m"] by simp

lemma forMe_shape:
  "deleteForMe t nw m c u w =
     (let d1 = saveMessage (dbs w t)
                 (m\<lparr>deletedFor := Some (upsertDeletedFor u nw (deletedFor m))\<rparr>);
          lv = lastVisible d1 c u;
          d2 = (case lv of
                  Some v \<Rightarrow> if senderId m = u then findByIdAndUpdateLastMessage d1 c (lm_id v) else d1
                | None \<Rightarrow> d1)
      in \<lparr>after = putTenantModels t d2 w,
          emitted = (case findUserById (dbs w t) u of
                       None \<Rightarrow> []
                     | Some user \<Rightarrow> emitToUser user (MessageDeleted c (mid m) lv ForMe)),
          logged = None\<rparr>)"
  by (simp add: deleteForMe_def getTenantModels_def Let_def findUserById_def
      split: option.splits)

text \<open>
  Claim C8, as the code has it. A delete for me of a stored message rewrites only that
  message, and of it only the soft-delete records: the deleting participant gets a
  record (a new one, or the first existing one with its time reset), and the records of
  every other participant, so what is hidden for them, are as before; the ChatUser
  documents are untouched; the event goes to the deleting participant's live handles
  only and carries their last visible message. The chat's last-message pointer is set
  to that last visible message whenever the deleting participant is the sender of the
  deleted message and a message of the chat is still visible to them; otherwise the
  chats are unchanged.
\<close>

theorem delete_for_me_frame:
  assumes found: "find (\<lambda>m. mid m = i \<and> chatId m = c \<and> tenantId m = data_tenantId sock)
                    (messages (dbs w (data_tenantId sock))) = Some m"
  shows "messages (dbs (after (deleteMessage sock nw i c u ForMe w)) (data_tenantId sock))
           = map (\<lambda>x. if mid x = i
                       then m\<lparr>deletedFor := Some (upsertDeletedFor u nw (deletedFor m))\<rparr> else x)
               (messages (dbs w (data_tenantId sock)))
       \<and> filter (\<lambda>e. df_userId e \<noteq> u) (upsertDeletedFor u nw (deletedFor m))
           = filter (\<lambda>e. df_userId e \<noteq> u) (case deletedFor m of None \<Rightarrow> [] | Some es \<Rightarrow> es)
       \<and> (\<forall>v. hiddenFor v (m\<lparr>deletedFor := Some (upsertDeletedFor u nw (deletedFor m))\<rparr>)
                \<longleftrightarrow> v = u \<or> hiddenFor v m)
       \<and> chatUsers (dbs (after (deleteMessage sock nw i c u ForMe w)) (data_tenantId sock))
           = chatUsers (dbs w (data_tenantId sock))
       \<and> (\<exists>lv. carriesLastVisible
                  (messages (dbs (after (deleteMessage sock nw i c u ForMe w)) (data_tenantId sock)))
                  c u lv
              \<and> chats (dbs (after (deleteMessage sock nw i c u ForMe w)) (data_tenantId sock))
                  = (case lv of
                       Some v \<Rightarrow>
                         if senderId m = u
                         then map (\<lambda>ch. if cid ch = c then ch\<lparr>lastMessage := Some (lm_id v)\<rparr> else ch)
                                (chats (dbs w (data_tenantId sock)))
                         else chats (dbs w (data_tenantId sock))
                     | None \<Rightarrow> chats (dbs w (data_tenantId sock)))
              \<and> emitted (deleteMessage sock nw i c u ForMe w)
                  = (case findUserById (dbs w (data_tenantId sock)) u of
                       None \<Rightarrow> []
                     | Some user \<Rightarrow> map (\<lambda>sid. (sid, MessageDeleted c i lv ForMe)) (socketIds user)))"
proof -
  let ?t = "data_tenantId sock"
  let ?m' = "m\<lparr>deletedFor := Some (upsertDeletedFor u nw (deletedFor m))\<rparr>"
  let ?d1 = "saveMessage (dbs w ?t) ?m'"
  let ?lv = "lastVisible ?d1 c u"
  have mi: "mid m = i" using find_message_Some[OF found] by simp
  have r: "deleteMessage sock nw i c u ForMe w = deleteForMe ?t nw m c u w"
    by (rule deleteMessage_forMe[OF found])
  have msgs: "messages (dbs (after (deleteForMe ?t nw m c u w)) ?t) = messages ?d1"
    by (simp add: forMe_shape Let_def split: option.splits)
  have users: "chatUsers (dbs (after (deleteForMe ?t nw m c u w)) ?t) = chatUsers (dbs w ?t)"
    by (simp add: forMe_shape Let_def split: option.splits)
  have chs: "chats (dbs (after (deleteForMe ?t nw m c u w)) ?t)
      = (case ?lv of
           Some v \<Rightarrow> if senderId m = u
                     then map (\<lambda>ch. if cid ch = c then ch\<lparr>lastMessage := Some (lm_id v)\<rparr> else ch)
                            (chats (dbs w ?t))
                     else chats (dbs w ?t)
         | None \<Rightarrow> chats (dbs w ?t))"
    by (simp add: forMe_shape Let_def findByIdAndUpdateLastMessage_def saveMessage_def
        split: option.splits)
  have em: "emitted (deleteForMe ?t nw m c u w)
      = (case findUserById (dbs w ?t) u of
           None \<Rightarrow> []
         | Some user \<Rightarrow> map (\<lambda>sid. (sid, MessageDeleted c i ?lv ForMe)) (socketIds user))"
    by (simp add: forMe_shape Let_def emitToUser_def mi split: option.splits)
  have car: "carriesLastVisible (messages ?d1) c u ?lv"
    by (rule lastVisible_carries)
  have m1: "messages ?d1 = map (\<lambda>x. if mid x = i then ?m' else x) (messages (dbs w ?t))"
    by (simp add: saveMessage_def mi)
  show ?thesis
    unfolding r msgs users
    using m1 upsert_others[of u nw "deletedFor m"] hiddenFor_upsert[where m=m and u=u and nw=nw] car chs em
    by blast
qed

theorem delete_for_me_frame_witness:
  "find (\<lambda>m. mid m = 2 \<and> chatId m = 1 \<and> tenantId m = data_tenantId sock1)
     (messages (dbs world1 (data_tenantId sock1))) = Some msg2
   \<and> messages (dbs (after (deleteMessage sock1 300 2 1 1 ForMe world1)) (data_tenantId sock1))
       = [msg1, msg2\<lparr>deletedFor := Some [\<lparr>df_userId = 1, deletedAt = 300\<rparr>]\<rparr>]
   \<and> chatUsers (dbs (after (deleteMessage sock1 300 2 1 1 ForMe world1)) (data_tenantId sock1))
       = chatUsers (dbs world1 (data_tenantId sock1))"
proof -
  have found: "find (\<lambda>m. mid m = 2 \<and> chatId m = 1 \<and> tenantId m = data_tenantId sock1)
     (messages (dbs world1 (data_tenantId sock1))) = Some msg2"
    by (simp add: sock1_def db1_def msg1_def msg2_def)
  have up: "upsertDeletedFor 1 300 (deletedFor msg2) = [\<lparr>df_userId = 1, deletedAt = 300\<rparr>]"
    by (simp add: upsertDeletedFor_def msg2_def)
  have ms: "map (\<lambda>x. if mid x = 2 then msg2\<lparr>deletedFor := Some [\<lparr>df_userId = 1, deletedAt = 300\<rparr>]\<rparr>
                       else x) (messages (dbs world1 (data_tenantId sock1)))
      = [msg1, msg2\<lparr>deletedFor := Some [\<lparr>df_userId = 1, deletedAt = 300\<rparr>]\<rparr>]"
    by (simp add: sock1_def db1_def msg1_def msg2_def)
  note fr = delete_for_me_frame[OF found, of 300 1]
  have a: "messages (dbs (after (deleteMessage sock1 300 2 1 1 ForMe world1)) (data_tenantId sock1))
      = map (\<lambda>x. if mid x = 2
                  then msg2\<lparr>deletedFor := Some (upsertDeletedFor 1 300 (deletedFor msg2))\<rparr>
                  else x) (messages (dbs world1 (data_tenantId sock1)))"
    using fr by blast
  have b: "chatUsers (dbs (after (deleteMessage sock1 300 2 1 1 ForMe world1)) (data_tenantId sock1))
       = chatUsers (dbs world1 (data_tenantId sock1))"
    using fr by blast
  from found a[unfolded up ms] b show ?thesis by blast
qed

text \<open>
  The claim as stated fails: message 2 is the latest message of chat 1, the chat's last
  message, and participant 1 sent it. When participant 1 deletes it for themselves, the
  chat's last-message pointer moves to message 1.
\<close>

theorem delete_for_me_moves_last_message:
  "map lastMessage (chats (dbs world1 (data_tenantId sock1))) = [Some 2]
   \<and> senderId msg2 = 1
   \<and> map lastMessage
        (chats (dbs (after (deleteMessage sock1 300 2 1 1 ForMe world1)) (data_tenantId sock1)))
       = [Some 1]"
  by (simp add: deleteMessage_def deleteForMe_def sock1_def getTenantModels_def
      putTenantModels_def saveMessage_def upsertDeletedFor_def lastVisible_def findLatest_def
      sortCreatedAtDesc_def notDeletedFor_def elemMatchUser_def
      findByIdAndUpdateLastMessage_def selectBodyCreatedAt_def
      db1_def msg1_def msg2_def Let_def)


section \<open>Sending a message\<close>

lemma directMessage_aborts:
  assumes "find (\<lambda>x. socket_id sock \<in> set (socketIds x)) (chatUsers (dbs w (data_tenantId sock)))
             = Some usr"
    and "findChatById (dbs w (data_tenantId sock)) c = Some ch"
  shows "logged (directMessage idn sock nw i c cont w) = Some TypeError
       \<and> emitted (directMessage idn sock nw i c cont w) = []
       \<and> messages (dbs (after (directMessage idn sock nw i c cont w)) (data_tenantId sock))
           = messages (dbs w (data_tenantId sock))
             @ [\<lparr>mid = i, chatId = c, senderId = uid usr, body = c_body cont,
                 msgType = c_type cont, replyTo = c_replyTo cont, viewers = [],
                 deletedFor = Some [], createdAt = nw, tenantId = data_tenantId sock\<rparr>]
       \<and> chats (dbs (after (directMessage idn sock nw i c cont w)) (data_tenantId sock))
           = chats (dbs w (data_tenantId sock))"
  using assms
  by (simp add: directMessage_def leanSave_def rejected_def getTenantModels_def
      putTenantModels_def joinRoom_def createMessage_def Let_def)

text \<open>
  The code after \<^verbatim>\<open>chat.save()\<close> would not deliver either: the participants it walks
  are the identity resolver's objects, so nothing is sent to them and the first lookup
  of a recipient's sockets raises.
\<close>

lemma deliver_raises:
  assumes "findMessageById (dbs w t) (mid message) = Some pm"
    and "filter (\<lambda>p. iam_id p \<noteq> sender) chatParticipants \<noteq> []"
    and "sockets w \<noteq> []"
  shows "deliver idn t nw c message sender chatParticipants w
           = \<lparr>after = w, emitted = [], logged = Some TypeError\<rparr>"
proof -
  obtain p rest where ps: "filter (\<lambda>p. iam_id p \<noteq> sender) chatParticipants = p # rest"
    using assms(2) by (cases "filter (\<lambda>p. iam_id p \<noteq> sender) chatParticipants") auto
  have sent: "emitToParticipants chatParticipants ev = []" for ev
    by (induction chatParticipants) (simp_all add: emitToParticipants_def iamSocketIds_def)
  show ?thesis
    using assms(1,3)
    by (simp add: deliver_def getTenantModels_def Let_def ps sent participantSockets_def
        iamSocketIds_def)
qed

text \<open>
  Claim C5 at a concrete send. Participant 1 sends to chat 1 from socket 10; the other
  participant, 2, has socket 20 connected and joined to the chat's room. The claim has
  participant 2 in the new message's viewer set, a \<^verbatim>\<open>messageRead\<close> event for them and
  an unread count of 0 pushed to them. The handler creates the message and then stops
  at \<^verbatim>\<open>chat.save()\<close>: the message is stored with an empty viewer set, nothing at all
  is emitted, the chat's last-message pointer is not moved, and a \<^verbatim>\<open>TypeError\<close> is
  logged.
\<close>

theorem send_to_present_recipient_aborts:
  "list_ex (\<lambda>s. fst s = 20 \<and> 1 \<in> set (snd s)) (sockets world1)
   \<and> findUserById (dbs world1 (data_tenantId sock1)) 2
       = Some \<lparr>uid = 2, socketIds = [20, 21], active = True\<rparr>
   \<and> emitted (handle iam1 env1 sock1 (DirectMessage 1 content1) world1) = []
   \<and> logged (handle iam1 env1 sock1 (DirectMessage 1 content1) world1) = Some TypeError
   \<and> map (\<lambda>m. (mid m, viewers m))
        (messages (dbs (after (handle iam1 env1 sock1 (DirectMessage 1 content1) world1))
                     (data_tenantId sock1)))
       = [(1, [1]), (2, []), (3, [])]
   \<and> getUnreadCount 1 2 (data_tenantId sock1)
        (after (handle iam1 env1 sock1 (DirectMessage 1 content1) world1)) = 2
   \<and> map lastMessage
        (chats (dbs (after (handle iam1 env1 sock1 (DirectMessage 1 content1) world1))
                  (data_tenantId sock1)))
       = [Some 2]"
  by (simp add: directMessage_def leanSave_def rejected_def getTenantModels_def
      putTenantModels_def joinRoom_def createMessage_def findChatById_def findUserById_def
      populateParticipants_def List.map_filter_def getUnreadCount_def unreadQuery_def
      notDeletedFor_def elemMatchUser_def sock1_def env1_def content1_def iam1_def
      world1_def db1_def msg1_def msg2_def Let_def)


section \<open>Message history\<close>

text \<open>
  Claim C10. For a page \<open>p \<ge> 1\<close>, \<^verbatim>\<open>getMessageHistory\<close> leaves the state as it is and
  emits one \<^verbatim>\<open>messageHistory\<close> to the asking socket. The computed \<^verbatim>\<open>skip\<close> is never
  applied: the reply holds the newest \<open>min(total, 10p)\<close> messages of the chat, in
  ascending order of creation (every message left out is no newer than any message in
  it), so the reply of a page is contained in the reply of every higher page, and
  \<^verbatim>\<open>hasMore\<close> is \<open>total > (p - 1) * 10p + 10p\<close>.
\<close>

theorem history_is_newest_window:
  assumes p: "1 \<le> p" and tg: "tagged (data_tenantId sock) (dbs w (data_tenantId sock))"
  shows "after (getMessageHistory idn sock c p w) = w
    \<and> (\<exists>h. emitted (getMessageHistory idn sock c p w) =
            [(socket_id sock, MessageHistory h
               (int (length (chatMessages (dbs w (data_tenantId sock)) c)) > (p - 1) * (10 * p) + 10 * p)
               (length (chatMessages (dbs w (data_tenantId sock)) c)) p)]
           \<and> map fst h = historyMessages (getMessageHistory idn sock c p w))
    \<and> length (historyMessages (getMessageHistory idn sock c p w)) =
        min (length (chatMessages (dbs w (data_tenantId sock)) c)) (nat (10 * p))
    \<and> sorted (map createdAt (historyMessages (getMessageHistory idn sock c p w)))
    \<and> mset (historyMessages (getMessageHistory idn sock c p w))
        \<subseteq># mset (chatMessages (dbs w (data_tenantId sock)) c)
    \<and> (\<forall>x \<in># mset (chatMessages (dbs w (data_tenantId sock)) c)
                 - mset (historyMessages (getMessageHistory idn sock c p w)).
         \<forall>y \<in> set (historyMessages (getMessageHistory idn sock c p w)). createdAt x \<le> createdAt y)
    \<and> (\<forall>q \<ge> p. mset (historyMessages (getMessageHistory idn sock c p w))
                 \<subseteq># mset (historyMessages (getMessageHistory idn sock c q w)))"
proof -
  define chatMsgs where "chatMsgs = chatMessages (dbs w (data_tenantId sock)) c"
  define r where "r = getMessageHistory idn sock c p w"
  let ?xs = "sortCreatedAtDesc chatMsgs"
  have cm: "chatMsgs = filter (\<lambda>m. chatId m = c) (messages (dbs w (data_tenantId sock)))"
    by (simp add: chatMsgs_def chatMessages_def)
  have hm: "historyMessages r = rev (take (nat (10 * p)) ?xs)"
    unfolding r_def cm by (rule historyMessages_eq[OF p tg])
  have 1: "after r = w" unfolding r_def by (simp add: history_shape[OF p tg])
  have 2: "\<exists>h. emitted r = [(socket_id sock, MessageHistory h
            (int (length chatMsgs) > (p - 1) * (10 * p) + 10 * p) (length chatMsgs) p)]
           \<and> map fst h = historyMessages r"
    unfolding hm unfolding r_def cm by (simp add: history_shape[OF p tg])
  have 3: "length (historyMessages r) = min (length chatMsgs) (nat (10 * p))"
    by (simp add: hm)
  have 4: "sorted (map createdAt (historyMessages r))"
    unfolding hm by (rule take_asc[OF desc_sorted])
  have 5: "mset (historyMessages r) \<subseteq># mset chatMsgs"
    using mset_take_sub[of "nat (10 * p)" ?xs] by (simp add: hm)
  have "mset chatMsgs - mset (historyMessages r) = mset (drop (nat (10 * p)) ?xs)"
    using mset_take_diff[of ?xs "nat (10 * p)"] by (simp add: hm)
  then have 6: "\<forall>x \<in># mset chatMsgs - mset (historyMessages r). \<forall>y \<in> set (historyMessages r). createdAt x \<le> createdAt y"
    using take_newest[OF desc_sorted, of "nat (10 * p)" chatMsgs] by (simp add: hm)
  have 7: "\<forall>q \<ge> p. mset (historyMessages r) \<subseteq># mset (historyMessages (getMessageHistory idn sock c q w))"
  proof (intro allI impI)
    fix q assume q: "p \<le> q"
    then have q1: "1 \<le> q" using p by simp
    have "historyMessages (getMessageHistory idn sock c q w) = rev (take (nat (10 * q)) ?xs)"
      unfolding cm by (rule historyMessages_eq[OF q1 tg])
    moreover have "nat (10 * p) \<le> nat (10 * q)" using q by simp
    ultimately show "mset (historyMessages r) \<subseteq># mset (historyMessages (getMessageHistory idn sock c q w))"
      using mset_take_mono[of "nat (10 * p)" "nat (10 * q)" ?xs] by (simp add: hm)
  qed
  from 1 2 3 4 5 6 7 show ?thesis unfolding r_def chatMsgs_def by blast
qed

theorem history_is_newest_window_witness:
  "(1::int) \<le> 1 \<and> tagged (data_tenantId sock1) (dbs world1 (data_tenantId sock1))
   \<and> historyMessages (getMessageHistory iam1 sock1 1 1 world1) = [msg1, msg2]
   \<and> length (historyMessages (getMessageHistory iam1 sock1 1 1 world1)) = 2
   \<and> sorted (map createdAt (historyMessages (getMessageHistory iam1 sock1 1 1 world1)))"
proof -
  have tg: "tagged (data_tenantId sock1) (dbs world1 (data_tenantId sock1))"
    using tagged_world1 by (simp add: sock1_def)
  have p: "(1::int) \<le> 1" by simp
  have h: "historyMessages (getMessageHistory iam1 sock1 1 1 world1) = [msg1, msg2]"
    by (simp add: historyMessages_def getMessageHistory_def sock1_def getTenantModels_def
        mongoLimit_def sortCreatedAtDesc_def db1_def msg1_def msg2_def populateSender_def
        Let_def)
  have len: "length (chatMessages (dbs world1 (data_tenantId sock1)) 1) = 2"
    by (simp add: chatMessages_def sock1_def db1_def msg1_def msg2_def)
  from history_is_newest_window[OF p tg, of iam1 1] len h tg
  show ?thesis by simp
qed


section \<open>Field encryption: facts\<close>

lemma decodeStep_1: "cp < 0x80 \<Longrightarrow> decodeStep (encodeCodePoint cp @ rest) = ([cp], 1)"
  by (simp add: encodeCodePoint_def)

lemma decodeStep_2:
  assumes "0x80 \<le> cp" "cp < 0x800"
  shows "decodeStep (encodeCodePoint cp @ rest) = ([cp], 2)"
proof -
  have e: "encodeCodePoint cp = [0xC0 + cp div 64, 0x80 + cp mod 64]"
    using assms by (simp add: encodeCodePoint_def)
  have b0: "0xC2 \<le> 0xC0 + cp div 64" "0xC0 + cp div 64 \<le> 0xDF" "\<not> 0xC0 + cp div 64 < 0x80"
    using assms by arith+
  have b1: "isContinuation (0x80 + cp mod 64)"
    unfolding isContinuation_def by arith
  have v: "(0xC0 + cp div 64 - 0xC0) * 64 + (0x80 + cp mod 64 - 0x80) = cp"
    by simp
  show ?thesis
    unfolding e using b0 b1 v by simp
qed

lemma split3: "(cp::nat) div 4096 * 4096 + cp div 64 mod 64 * 64 + cp mod 64 = cp"
proof -
  define Q X Y Z where "Q = cp div 64" and "X = Q div 64" and "Y = Q mod 64" and "Z = cp mod 64"
  have 1: "cp = 64 * Q + Z" unfolding Q_def Z_def by simp
  have 2: "Q = 64 * X + Y" unfolding X_def Y_def by simp
  have 3: "cp div 4096 = X" unfolding X_def Q_def by (simp add: div_mult2_eq)
  have "X * 4096 + Y * 64 + Z = cp" using 1 2 by linarith
  then show ?thesis unfolding 3 unfolding Y_def Z_def Q_def by simp
qed

lemma split4:
  "(cp::nat) div 262144 * 262144 + cp div 4096 mod 64 * 4096 + cp div 64 mod 64 * 64 + cp mod 64
     = cp"
proof -
  define P W V where "P = cp div 4096" and "W = P div 64" and "V = P mod 64"
  have 1: "P = 64 * W + V" unfolding W_def V_def by simp
  have 2: "cp div 262144 = W" unfolding W_def P_def by (simp add: div_mult2_eq)
  have "W * 262144 + V * 4096 = P * 4096" using 1 by linarith
  then have "cp div 262144 * 262144 + cp div 4096 mod 64 * 4096 = cp div 4096 * 4096"
    unfolding 2 unfolding V_def P_def by simp
  then show ?thesis using split3[of cp] by linarith
qed

lemma decodeStep_3:
  assumes "0x800 \<le> cp" "cp < 0x10000" "\<not> isHighSurrogate cp" "\<not> isLowSurrogate cp"
  shows "decodeStep (encodeCodePoint cp @ rest) = ([cp], 3)"
proof -
  define X Y Z where "X = cp div 4096" and "Y = cp div 64 mod 64" and "Z = cp mod 64"
  have cp: "X * 4096 + Y * 64 + Z = cp" unfolding X_def Y_def Z_def by (rule split3)
  have lt: "Y < 64" "Z < 64" unfolding Y_def Z_def by simp_all
  have e: "encodeCodePoint cp = [0xE0 + X, 0x80 + Y, 0x80 + Z]"
    using assms by (simp add: encodeCodePoint_def X_def Y_def Z_def)
  have ns: "cp < 0xD800 \<or> 0xE000 \<le> cp"
    using assms(3,4) by (auto simp: isHighSurrogate_def isLowSurrogate_def)
  have X: "X \<le> 15" using cp assms(2) by linarith
  have lo: "X = 0 \<Longrightarrow> 32 \<le> Y" using cp assms(1) lt by linarith
  have hi: "X = 13 \<Longrightarrow> Y \<le> 31" using cp ns lt by linarith
  have b1: "secondByteOk (0xE0 + X) (0x80 + Y)"
    unfolding secondByteOk_def using lo hi lt X by auto
  have b2: "isContinuation (0x80 + Z)"
    unfolding isContinuation_def using lt by simp
  show ?thesis
    unfolding e using X b1 b2 cp by simp
qed

lemma decodeStep_4:
  assumes "0x10000 \<le> cp" "cp < 0x110000"
  shows "decodeStep (encodeCodePoint cp @ rest) = (unitsOfCodePoint cp, 4)"
proof -
  define W V Y Z where "W = cp div 262144" and "V = cp div 4096 mod 64"
    and "Y = cp div 64 mod 64" and "Z = cp mod 64"
  have cp: "W * 262144 + V * 4096 + Y * 64 + Z = cp"
    unfolding W_def V_def Y_def Z_def by (rule split4)
  have lt: "V < 64" "Y < 64" "Z < 64" unfolding V_def Y_def Z_def by simp_all
  have e: "encodeCodePoint cp = [0xF0 + W, 0x80 + V, 0x80 + Y, 0x80 + Z]"
    using assms by (simp add: encodeCodePoint_def W_def V_def Y_def Z_def)
  have W: "W \<le> 4" using cp assms(2) by linarith
  have lo: "W = 0 \<Longrightarrow> 16 \<le> V" using cp assms(1) lt by linarith
  have hi: "W = 4 \<Longrightarrow> V \<le> 15" using cp assms(2) lt by linarith
  have b1: "secondByteOk (0xF0 + W) (0x80 + V)"
    unfolding secondByteOk_def using lo hi lt W by auto
  have b2: "isContinuation (0x80 + Y)" "isContinuation (0x80 + Z)"
    unfolding isContinuation_def using lt by simp_all
  show ?thesis
    unfolding e using W b1 b2 cp by simp
qed

lemma encodeCodePoint_nonempty: "encodeCodePoint cp \<noteq> []"
  by (simp add: encodeCodePoint_def)

lemma decode_encodeCodePoint:
  assumes "cp < 0x110000" "\<not> isHighSurrogate cp" "\<not> isLowSurrogate cp"
  shows "utf8DecodeBytes (encodeCodePoint cp @ rest) = unitsOfCodePoint cp @ utf8DecodeBytes rest"
proof -
  have "decodeStep (encodeCodePoint cp @ rest)
          = (unitsOfCodePoint cp, length (encodeCodePoint cp))"
  proof -
    consider "cp < 0x80" | "0x80 \<le> cp \<and> cp < 0x800" | "0x800 \<le> cp \<and> cp < 0x10000"
      | "0x10000 \<le> cp" by linarith
    then show ?thesis
    proof cases
      case 1
      then show ?thesis
        using decodeStep_1[of cp rest] by (simp add: unitsOfCodePoint_def encodeCodePoint_def)
    next
      case 2
      then show ?thesis
        using decodeStep_2[of cp rest] by (simp add: unitsOfCodePoint_def encodeCodePoint_def)
    next
      case 3
      then show ?thesis
        using decodeStep_3[of cp rest] assms
        by (simp add: unitsOfCodePoint_def encodeCodePoint_def)
    next
      case 4
      then show ?thesis
        using decodeStep_4[of cp rest] assms by (simp add: encodeCodePoint_def)
    qed
  qed
  then show ?thesis
    by (subst utf8DecodeBytes.simps) (simp add: encodeCodePoint_nonempty)
qed

lemma surrogate_pair:
  assumes "isHighSurrogate u" "isLowSurrogate l"
  shows "0x10000 + (u - 0xD800) * 1024 + (l - 0xDC00) < 0x110000"
    and "\<not> isHighSurrogate (0x10000 + (u - 0xD800) * 1024 + (l - 0xDC00))"
    and "\<not> isLowSurrogate (0x10000 + (u - 0xD800) * 1024 + (l - 0xDC00))"
    and "unitsOfCodePoint (0x10000 + (u - 0xD800) * 1024 + (l - 0xDC00)) = [u, l]"
proof -
  define a b where "a = u - 0xD800" and "b = l - 0xDC00"
  have a: "a < 1024" "u = 0xD800 + a" and b: "b < 1024" "l = 0xDC00 + b"
    using assms unfolding a_def b_def isHighSurrogate_def isLowSurrogate_def by linarith+
  have cp: "0x10000 + (u - 0xD800) * 1024 + (l - 0xDC00) = 0x10000 + a * 1024 + b"
    by (simp add: a_def b_def)
  show "0x10000 + (u - 0xD800) * 1024 + (l - 0xDC00) < 0x110000"
    unfolding cp using a b by linarith
  show "\<not> isHighSurrogate (0x10000 + (u - 0xD800) * 1024 + (l - 0xDC00))"
    unfolding cp isHighSurrogate_def by linarith
  show "\<not> isLowSurrogate (0x10000 + (u - 0xD800) * 1024 + (l - 0xDC00))"
    unfolding cp isLowSurrogate_def by linarith
  have "(a * 1024 + b) div 1024 = a" "(a * 1024 + b) mod 1024 = b"
    using b(1) by simp_all
  then show "unitsOfCodePoint (0x10000 + (u - 0xD800) * 1024 + (l - 0xDC00)) = [u, l]"
    unfolding cp using a(2) b(2) by (simp add: unitsOfCodePoint_def)
qed

lemma decode_empty [simp]: "utf8DecodeBytes [] = []"
  by (simp add: utf8DecodeBytes.simps)

lemma utf8_roundtrip_units:
  "wellFormedUnits us \<Longrightarrow> \<forall>u \<in> set us. u < 0x10000 \<Longrightarrow>
   utf8DecodeBytes (utf8EncodeUnits us) = us"
proof (induction us rule: utf8EncodeUnits.induct)
  case 1
  then show ?case by simp
next
  case (2 u)
  then have "utf8DecodeBytes (encodeCodePoint u @ []) = unitsOfCodePoint u @ utf8DecodeBytes []"
    by (intro decode_encodeCodePoint) simp_all
  with 2 show ?case by (simp add: unitsOfCodePoint_def)
next
  case (3 u l rest)
  show ?case
  proof (cases "isHighSurrogate u")
    case True
    with 3 have l: "isLowSurrogate l" and wf: "wellFormedUnits rest" by simp_all
    have "utf8DecodeBytes (utf8EncodeUnits rest) = rest"
      using 3 True l wf by simp
    then show ?thesis
      using True l surrogate_pair[OF True l] decode_encodeCodePoint by simp
  next
    case False
    with 3 have nl: "\<not> isLowSurrogate u" and wf: "wellFormedUnits (l # rest)" by simp_all
    have ih: "utf8DecodeBytes (utf8EncodeUnits (l # rest)) = l # rest"
      using 3 False nl wf by simp
    have ub: "u < 0x10000" using "3.prems"(2) by simp
    then have "u < 0x110000" by simp
    then have "utf8DecodeBytes (encodeCodePoint u @ utf8EncodeUnits (l # rest))
        = unitsOfCodePoint u @ utf8DecodeBytes (utf8EncodeUnits (l # rest))"
      using False nl by (intro decode_encodeCodePoint)
    moreover have "unitsOfCodePoint u = [u]" using ub by (simp add: unitsOfCodePoint_def)
    ultimately show ?thesis using False nl ih by simp
  qed
qed

lemma encodeCodePoint_bytes:
  "cp < 0x110000 \<Longrightarrow> \<forall>b \<in> set (encodeCodePoint cp). b < 256"
proof -
  assume a: "cp < 0x110000"
  have m: "cp mod 64 < 64" "cp div 64 mod 64 < 64" "cp div 4096 mod 64 < 64" by simp_all
  have "cp < 0x800 \<Longrightarrow> cp div 64 < 32" by (simp add: div_less_iff_less_mult)
  moreover have "cp < 0x10000 \<Longrightarrow> cp div 4096 < 16" by (simp add: div_less_iff_less_mult)
  moreover have "cp div 262144 < 5" using a by (simp add: div_less_iff_less_mult)
  ultimately show ?thesis
    using m by (auto simp: encodeCodePoint_def)
qed

lemma utf8EncodeUnits_bytes:
  "\<forall>u \<in> set us. u < 0x10000 \<Longrightarrow> \<forall>b \<in> set (utf8EncodeUnits us). b < 256"
proof (induction us rule: utf8EncodeUnits.induct)
  case 1
  then show ?case by simp
next
  case (2 u)
  then show ?case
    using encodeCodePoint_bytes[of u] by (auto simp: replacementBytes_def)
next
  case (3 u l rest)
  have cp: "isHighSurrogate u \<Longrightarrow> isLowSurrogate l \<Longrightarrow>
      \<forall>b \<in> set (encodeCodePoint (0x10000 + (u - 0xD800) * 1024 + (l - 0xDC00))). b < 256"
    using surrogate_pair(1) encodeCodePoint_bytes by blast
  have u: "\<forall>b \<in> set (encodeCodePoint u). b < 256"
    using "3.prems" encodeCodePoint_bytes[of u] by simp
  show ?case
    using 3 cp u by (auto simp: replacementBytes_def)
qed

lemma unat_byte: "n < 256 \<Longrightarrow> unat (of_nat n :: 8 word) = n"
  by (simp add: unat_of_nat)

lemma unat_unit: "n < 65536 \<Longrightarrow> unat (of_nat n :: 16 word) = n"
  by (simp add: unat_of_nat)

lemma map_unat_bytes: "\<forall>b \<in> set ns. b < 256 \<Longrightarrow> map unat (map of_nat ns :: 8 word list) = ns"
  by (induction ns) (simp_all add: unat_byte)

lemma unat_unit_bound: "unat (u :: 16 word) < 65536"
  using unsigned_less[of u] by simp

lemma utf8_roundtrip:
  assumes "wellFormed s"
  shows "utf8Decode (utf8Encode s) = s"
proof -
  have b: "\<forall>u \<in> set (map unat s). u < 0x10000"
    using unat_unit_bound by auto
  have "map unat (map of_nat (utf8EncodeUnits (map unat s)) :: 8 word list)
      = utf8EncodeUnits (map unat s)"
    by (rule map_unat_bytes[OF utf8EncodeUnits_bytes[OF b]])
  then have "utf8Decode (utf8Encode s) = map of_nat (utf8DecodeBytes (utf8EncodeUnits (map unat s)))"
    by (simp add: utf8Decode_def utf8Encode_def)
  also have "\<dots> = map of_nat (map unat s)"
    using utf8_roundtrip_units[OF _ b] assms by (simp add: wellFormed_def)
  also have "\<dots> = s" by (simp add: comp_def)
  finally show ?thesis .
qed

lemma unat_hexDigit:
  assumes "n < 16"
  shows "unat (hexDigit n) = (if n < 10 then 48 + n else 87 + n)"
proof -
  have "unat (of_nat (48 + n) :: 16 word) = 48 + n" "unat (of_nat (87 + n) :: 16 word) = 87 + n"
    using assms by (intro unat_unit; linarith)+
  then show ?thesis unfolding hexDigit_def by presburger
qed

lemma hexValue_hexDigit: "n < 16 \<Longrightarrow> hexValue (hexDigit n) = Some n"
  unfolding hexValue_def Let_def by (simp only: unat_hexDigit) auto

lemma hex_roundtrip: "hexDecode (hexEncode bs) = bs"
proof (induction bs)
  case Nil
  then show ?case by simp
next
  case (Cons b bs)
  have d: "unat b div 16 < 16"
    using unsigned_less[of b] by (simp add: div_less_iff_less_mult)
  have "of_nat (16 * (unat b div 16) + unat b mod 16) = b"
    by simp
  with Cons d show ?case
    by (simp add: hexValue_hexDigit)
qed

lemma deriveKey_again:
  assumes "deriveKey lib pw salt ch = Inr (key, ch')"
  shows "deriveKey lib pw salt ch' = Inr (key, ch')"
proof (cases "\<exists>k. keyCache ch (pw @ [colon] @ salt) = Some k \<and> k \<noteq> []")
  case True
  then show ?thesis using assms by (auto simp: deriveKey_def Let_def)
next
  case False
  then have d: "argon2id lib pw (hexDecode salt) = Inr key"
    and c: "ch' = ch\<lparr>keyCache := (keyCache ch)(pw @ [colon] @ salt \<mapsto> key)\<rparr>"
    using assms by (auto simp: deriveKey_def Let_def split: option.splits sum.splits if_splits)
  show ?thesis
    unfolding c by (simp add: deriveKey_def d Let_def)
qed

lemma roundTrip_value:
  assumes contract: "aeadContract lib"
    and enc: "encryptDataWithNonce lib p salt nonce pw ch = Inr (ct, ch')"
  shows "decryptDataWithNonce lib ct nonce salt pw None ch' = Inr (utf8Decode (utf8Encode p), ch')"
proof -
  from enc obtain key c where dk: "deriveKey lib pw salt ch = Inr (key, ch')"
    and ae: "aeadEncrypt lib (utf8Encode p) (hexDecode nonce) key = Inr c"
    and ct: "ct = hexEncode c"
    by (auto simp: encryptDataWithNonce_def split: sum.splits)
  from contract ae have len: "length c = length (utf8Encode p) + ABYTES"
    and ad: "aeadDecrypt lib c (hexDecode nonce) key = Some (utf8Encode p)"
    by (auto simp: aeadContract_def)
  show ?thesis
    using deriveKey_again[OF dk] len ad
    by (simp add: decryptDataWithNonce_def usableKey_def ct hex_roundtrip Let_def)
qed

lemma toyLib_contract: "aeadContract toyLib"
  by (auto simp: aeadContract_def toyLib_def ABYTES_def)

lemma decryptEach_fails:
  "decryptEach lib f sec pre ch = Inr (pre', ch') \<Longrightarrow> decryptFields lib f sec d ch' = Inl e \<Longrightarrow>
   decryptEach lib f sec (pre @ d # post) ch = Inl e"
  by (induction pre arbitrary: ch pre') (auto split: sum.splits)

lemma decryptEach_ok:
  "decryptEach lib f sec ds ch = Inr (ds', ch') \<Longrightarrow>
   length ds' = length ds
   \<and> (\<forall>pre d post. ds = pre @ d # post \<longrightarrow>
        (\<exists>pre' c c' d'. decryptEach lib f sec pre ch = Inr (pre', c)
                      \<and> decryptFields lib f sec d c = Inr (d', c')))"
proof (induction ds arbitrary: ch ds')
  case Nil
  then show ?case by simp
next
  case (Cons a ds)
  from Cons.prems obtain a' c1 ds1 where a: "decryptFields lib f sec a ch = Inr (a', c1)"
    and r: "decryptEach lib f sec ds c1 = Inr (ds1, ch')" and e: "ds' = a' # ds1"
    by (auto split: sum.splits)
  from Cons.IH[OF r] have len: "length ds1 = length ds"
    and ih: "\<And>pre d post. ds = pre @ d # post \<Longrightarrow>
        \<exists>pre' c c' d'. decryptEach lib f sec pre c1 = Inr (pre', c)
                      \<and> decryptFields lib f sec d c = Inr (d', c')"
    by blast+
  have "\<exists>pre' c c' d'. decryptEach lib f sec pre ch = Inr (pre', c)
                      \<and> decryptFields lib f sec d c = Inr (d', c')"
    if "a # ds = pre @ d # post" for pre d post
  proof (cases pre)
    case Nil
    with that a show ?thesis by auto
  next
    case (Cons b pre2)
    with that have "ds = pre2 @ d # post" "b = a" by auto
    from ih[OF this(1)] obtain pre' c c' d' where
      "decryptEach lib f sec pre2 c1 = Inr (pre', c)" "decryptFields lib f sec d c = Inr (d', c')"
      by blast
    then show ?thesis using a Cons \<open>b = a\<close> by auto
  qed
  then show ?case using len e by auto
qed

lemma toy_encrypt:
  "encryptDataWithNonce toyLib p salt nonce password emptyCache
     = Inr (hexEncode (utf8Encode p @ replicate 16 0),
            emptyCache\<lparr>keyCache := [password @ [colon] @ salt \<mapsto> replicate 32 1]\<rparr>)"
  by (simp add: encryptDataWithNonce_def deriveKey_def toyLib_def emptyCache_def Let_def)

lemma wellFormed_hi: "wellFormed (js ''hi'')"
  by (simp add: wellFormed_def js_def isHighSurrogate_def isLowSurrogate_def)

lemma roundTrip_is_utf8:
  assumes "aeadContract lib"
    and "encryptDataWithNonce lib p salt nonce password ch = Inr (ct, ch')"
  shows "roundTrip lib p salt nonce password ch = Inr (utf8Decode (utf8Encode p))"
  using roundTrip_value[OF assms] assms(2) by (simp add: roundTrip_def)

lemma lone_surrogate: "utf8Decode (utf8Encode [0xD800]) = [0xFFFD]"
proof -
  have "utf8EncodeUnits (map unat [0xD800 :: 16 word]) = [0xEF, 0xBF, 0xBD]"
    by (simp add: isHighSurrogate_def replacementBytes_def)
  then have e: "map unat (utf8Encode [0xD800]) = [0xEF, 0xBF, 0xBD]"
    by (simp add: utf8Encode_def)
  have "decodeStep [0xEF, 0xBF, 0xBD] = ([0xFFFD], 3)"
    by (simp add: secondByteOk_def isContinuation_def)
  then have "utf8DecodeBytes [0xEF, 0xBF, 0xBD] = [0xFFFD]"
    by (subst utf8DecodeBytes.simps) simp
  then show ?thesis
    by (simp add: utf8Decode_def e)
qed

text \<open>
  Claim C3, as the code has it. For every plaintext that is well formed, and every salt,
  nonce and password with which encryption returns a ciphertext, decrypting that
  ciphertext with the same salt, nonce and password returns exactly the plaintext. The
  cipher is a parameter, taken with its contract. The length of the plaintext plays no
  part.
\<close>

theorem encrypt_decrypt_round_trip:
  assumes "aeadContract lib"
    and "wellFormed p"
    and "encryptDataWithNonce lib p salt nonce password ch = Inr (ct, ch')"
  shows "decryptDataWithNonce lib ct nonce salt password None ch' = Inr (p, ch')
       \<and> roundTrip lib p salt nonce password ch = Inr p"
  using roundTrip_value[OF assms(1,3)] utf8_roundtrip[OF assms(2)] assms(3)
  by (simp add: roundTrip_def)

theorem encrypt_decrypt_round_trip_witness:
  "aeadContract toyLib \<and> wellFormed (js ''hi'')
   \<and> encryptDataWithNonce toyLib (js ''hi'') (js ''00'') (js ''0a'') (js ''pw'') emptyCache
       = Inr (hexEncode (utf8Encode (js ''hi'') @ replicate 16 0),
              emptyCache\<lparr>keyCache := [js ''pw'' @ [colon] @ js ''00'' \<mapsto> replicate 32 1]\<rparr>)
   \<and> roundTrip toyLib (js ''hi'') (js ''00'') (js ''0a'') (js ''pw'') emptyCache = Inr (js ''hi'')"
  using encrypt_decrypt_round_trip[OF toyLib_contract wellFormed_hi toy_encrypt]
    toyLib_contract wellFormed_hi toy_encrypt
  by simp

text \<open>
  The claim as stated fails on a plaintext of length 1: a lone surrogate is encoded as
  U+FFFD before it is encrypted, and U+FFFD is what decryption returns. By
  \<open>roundTrip_is_utf8\<close> the result is the same with every cipher that meets the
  contract.
\<close>

theorem round_trip_lone_surrogate:
  "roundTrip toyLib [0xD800] (js ''00'') (js ''0a'') (js ''pw'') emptyCache = Inr [0xFFFD]
   \<and> roundTrip toyLib [0xD800] (js ''00'') (js ''0a'') (js ''pw'') emptyCache \<noteq> Inr [0xD800]"
  using roundTrip_is_utf8[OF toyLib_contract toy_encrypt, of "[0xD800]"] lone_surrogate
  by simp

lemma hexEncode_nonempty: "bs \<noteq> [] \<Longrightarrow> hexEncode bs \<noteq> []"
  by (cases bs) simp_all

lemma toy_deriveKey:
  "\<exists>key ch'. deriveKey toyLib p s ch = Inr (key, ch') \<and> fieldCache ch' = fieldCache ch"
  by (auto simp: deriveKey_def toyLib_def Let_def split: option.splits)

lemma toy_decrypt_good:
  assumes "fieldCache ch k = None" "wellFormed p" "k \<noteq> []"
  shows "\<exists>ch'. decryptDataWithNonce toyLib (hexEncode (utf8Encode p @ replicate 16 0)) n s pw
                  (Some k) ch = Inr (p, ch')
              \<and> fieldCache ch' = (fieldCache ch)(k \<mapsto> p)"
proof -
  obtain key ch1 where dk: "deriveKey toyLib pw s ch = Inr (key, ch1)"
    and fc: "fieldCache ch1 = fieldCache ch"
    using toy_deriveKey by blast
  have ad: "aeadDecrypt toyLib (utf8Encode p @ replicate 16 0) (hexDecode n) key
              = Some (utf8Encode p)"
    by (simp add: toyLib_def)
  show ?thesis
    using assms(1,3) dk fc ad utf8_roundtrip[OF assms(2)]
    by (simp add: decryptDataWithNonce_def usableKey_def hex_roundtrip ABYTES_def Let_def)
qed

lemma toy_decrypt_bad:
  assumes "fieldCache ch k = None"
  shows "decryptDataWithNonce toyLib (hexEncode (replicate 16 1)) n s pw (Some k) ch
           = Inl DecryptionFailed"
proof -
  obtain key ch1 where dk: "deriveKey toyLib pw s ch = Inr (key, ch1)"
    using toy_deriveKey by blast
  have ad: "aeadDecrypt toyLib (replicate 16 1) (hexDecode n) key = None"
    by (simp add: toyLib_def)
  show ?thesis
    using assms dk ad
    by (simp add: decryptDataWithNonce_def usableKey_def hex_roundtrip ABYTES_def Let_def)
qed

lemma keys_differ:
  "generateCacheKey (js ''body'') (doc_tenantId badDoc) (doc_id badDoc) (js ''chats'')
     (doc_updatedAt badDoc)
   \<noteq> generateCacheKey (js ''body'') (doc_tenantId goodDoc) (doc_id goodDoc) (js ''chats'')
       (doc_updatedAt goodDoc)"
  by (simp add: generateCacheKey_def badDoc_def goodDoc_def js_def)

lemma good_decrypts:
  "\<exists>ch'. decryptFields toyLib (js ''body'') toySecrets goodDoc emptyCache
           = Inr (goodDoc\<lparr>doc_text := js ''hi''\<rparr>, ch')
        \<and> fieldCache ch'
            = [generateCacheKey (js ''body'') (doc_tenantId goodDoc) (doc_id goodDoc) (js ''chats'')
                 (doc_updatedAt goodDoc) \<mapsto> js ''hi'']"
proof -
  have ne: "doc_text goodDoc \<noteq> []"
    by (simp add: goodDoc_def hexEncode_nonempty)
  have fc: "fieldCache emptyCache k = None" for k by (simp add: emptyCache_def)
  have nk: "generateCacheKey f t i m u \<noteq> []" for f t i m u
    by (simp add: generateCacheKey_def)
  from toy_decrypt_good[OF fc wellFormed_hi nk]
  obtain ch' where "decryptDataWithNonce toyLib (doc_text goodDoc) (sec_nonce toySecrets)
       (sec_salt toySecrets) (sec_password toySecrets)
       (Some (generateCacheKey (js ''body'') (doc_tenantId goodDoc) (doc_id goodDoc) (js ''chats'')
                 (doc_updatedAt goodDoc))) emptyCache = Inr (js ''hi'', ch')"
    and "fieldCache ch' = (fieldCache emptyCache)
        (generateCacheKey (js ''body'') (doc_tenantId goodDoc) (doc_id goodDoc) (js ''chats'')
                 (doc_updatedAt goodDoc) \<mapsto> js ''hi'')"
    unfolding goodDoc_def by (metis doc.select_convs(3))
  then show ?thesis using ne by (simp add: decryptFields_def emptyCache_def Let_def)
qed

lemma bad_fails:
  assumes "fieldCache ch (generateCacheKey (js ''body'') (doc_tenantId badDoc) (doc_id badDoc)
                            (js ''chats'') (doc_updatedAt badDoc)) = None"
  shows "decryptFields toyLib (js ''body'') toySecrets badDoc ch = Inl DecryptionFailed"
proof -
  have ne: "doc_text badDoc \<noteq> []"
    by (simp add: badDoc_def hexEncode_nonempty)
  have t: "doc_text badDoc = hexEncode (replicate 16 1)" by (simp add: badDoc_def)
  show ?thesis
    using ne toy_decrypt_bad[OF assms]
    by (simp add: decryptFields_def Let_def t)
qed

text \<open>
  Claim C6, as the code has it. With a tenant context and secrets, a multi-document
  read whose hook meets a document that fails to decrypt is rejected with that
  document's error: no batch is returned, whatever the documents before and after it.
  A batch is returned only when every document of it went through \<open>decryptFields\<close>
  without an error, one after the other, and then it has as many documents as were
  read. Without a tenant context, and with a tenant context for which no secrets are
  found, the documents pass through unmodified.
\<close>

theorem batch_read_aborts_on_failure:
  "(getSecrets tenant = Some sec
      \<and> decryptEach lib f sec pre ch = Inr (pre', ch') \<and> decryptFields lib f sec d ch' = Inl e \<longrightarrow>
      postFindHook lib f (Some tenant) getSecrets (Many (pre @ d # post)) ch = Inl e)
   \<and> (getSecrets tenant = Some sec
        \<and> postFindHook lib f (Some tenant) getSecrets (Many ds) ch = Inr (r, ch2) \<longrightarrow>
        (\<exists>ds'. r = Many ds' \<and> length ds' = length ds)
        \<and> (\<forall>pre0 d0 post0. ds = pre0 @ d0 # post0 \<longrightarrow>
             (\<exists>pre1 c c' d1. decryptEach lib f sec pre0 ch = Inr (pre1, c)
                           \<and> decryptFields lib f sec d0 c = Inr (d1, c'))))
   \<and> postFindHook lib f None getSecrets (Many ds) ch = Inr (Many ds, ch)
   \<and> (getSecrets tenant = None \<longrightarrow>
        postFindHook lib f (Some tenant) getSecrets (Many ds) ch = Inr (Many ds, ch))"
proof (intro conjI impI)
  assume "getSecrets tenant = Some sec
      \<and> decryptEach lib f sec pre ch = Inr (pre', ch') \<and> decryptFields lib f sec d ch' = Inl e"
  then show "postFindHook lib f (Some tenant) getSecrets (Many (pre @ d # post)) ch = Inl e"
    using decryptEach_fails[of lib f sec pre ch pre' ch' d e post]
    by (simp add: postFindHook_def)
next
  assume h: "getSecrets tenant = Some sec
        \<and> postFindHook lib f (Some tenant) getSecrets (Many ds) ch = Inr (r, ch2)"
  then obtain ds' where de: "decryptEach lib f sec ds ch = Inr (ds', ch2)" and r: "r = Many ds'"
    by (auto simp: postFindHook_def split: sum.splits)
  from decryptEach_ok[OF de] r
  show "\<exists>ds'. r = Many ds' \<and> length ds' = length ds" by auto
  from decryptEach_ok[OF de]
  show "\<forall>pre0 d0 post0. ds = pre0 @ d0 # post0 \<longrightarrow>
                 (\<exists>pre1 c c' d1. decryptEach lib f sec pre0 ch = Inr (pre1, c)
                               \<and> decryptFields lib f sec d0 c = Inr (d1, c'))" by blast
next
  show "postFindHook lib f None getSecrets (Many ds) ch = Inr (Many ds, ch)"
    by (simp add: postFindHook_def)
next
  assume "getSecrets tenant = None"
  then show "postFindHook lib f (Some tenant) getSecrets (Many ds) ch = Inr (Many ds, ch)"
    by (simp add: postFindHook_def)
qed

theorem batch_read_aborts_on_failure_witness:
  "(\<lambda>t. Some toySecrets) (js ''t1'') = Some toySecrets
   \<and> decryptEach toyLib (js ''body'') toySecrets [] emptyCache = Inr ([], emptyCache)
   \<and> decryptFields toyLib (js ''body'') toySecrets badDoc emptyCache = Inl DecryptionFailed
   \<and> postFindHook toyLib (js ''body'') (Some (js ''t1'')) (\<lambda>t. Some toySecrets)
       (Many ([] @ badDoc # [goodDoc])) emptyCache = Inl DecryptionFailed
   \<and> postFindHook toyLib (js ''body'') None (\<lambda>t. Some toySecrets) (Many [goodDoc, badDoc])
       emptyCache = Inr (Many [goodDoc, badDoc], emptyCache)
   \<and> (\<lambda>t. None :: secrets option) (js ''t1'') = None
   \<and> postFindHook toyLib (js ''body'') (Some (js ''t1'')) (\<lambda>t. None) (Many [goodDoc, badDoc])
       emptyCache = Inr (Many [goodDoc, badDoc], emptyCache)"
proof -
  have b: "decryptFields toyLib (js ''body'') toySecrets badDoc emptyCache = Inl DecryptionFailed"
    by (rule bad_fails) (simp add: emptyCache_def)
  have e: "decryptEach toyLib (js ''body'') toySecrets [] emptyCache = Inr ([], emptyCache)"
    by simp
  from batch_read_aborts_on_failure[of "\<lambda>t. Some toySecrets" "js ''t1''" toySecrets toyLib
      "js ''body''" "[]" emptyCache "[]" emptyCache badDoc DecryptionFailed "[goodDoc]"
      "[goodDoc, badDoc]"]
    batch_read_aborts_on_failure[of "\<lambda>t. None" "js ''t1''" toySecrets toyLib
      "js ''body''" "[]" emptyCache "[]" emptyCache badDoc DecryptionFailed "[goodDoc]"
      "[goodDoc, badDoc]"] b e
  show ?thesis by simp
qed

text \<open>
  The claim as stated fails: of two documents read, the first decrypts and the second
  does not verify; the read returns no batch but the error.
\<close>

theorem batch_read_one_bad_document:
  "postFindHook toyLib (js ''body'') (Some (js ''t1'')) (\<lambda>t. Some toySecrets)
     (Many [goodDoc, badDoc]) emptyCache = Inl DecryptionFailed"
proof -
  obtain ch' where g: "decryptFields toyLib (js ''body'') toySecrets goodDoc emptyCache
           = Inr (goodDoc\<lparr>doc_text := js ''hi''\<rparr>, ch')"
    and fc: "fieldCache ch'
            = [generateCacheKey (js ''body'') (doc_tenantId goodDoc) (doc_id goodDoc) (js ''chats'')
                 (doc_updatedAt goodDoc) \<mapsto> js ''hi'']"
    using good_decrypts by blast
  have "decryptFields toyLib (js ''body'') toySecrets badDoc ch' = Inl DecryptionFailed"
    by (rule bad_fails) (simp add: fc keys_differ)
  then show ?thesis using g by (simp add: postFindHook_def)
qed

end
